theory Spec2Isabelle
  imports Complex_Main
begin

section \<open>Fire Creek tree cutting priority: the scoring engine of fire_creek_analysis.py\<close>

text \<open>
  The scores of the program are Python and numpy floats. They are modelled as exact real
  numbers extended with one not-a-number value: rounding and the infinities are outside
  this model, so that a sum or a product never overflows in it. Arithmetic propagates
  \<open>NaN\<close> and every comparison with \<open>NaN\<close> is false, as in IEEE arithmetic. The linear
  branch of the normalizer, which rounding and overflow decide, is modelled a second time
  over doubles, further down.
\<close>

datatype pyfloat = NaN | Fin real

datatype error = ZeroDivisionError | ValueError

fun isnan :: "pyfloat \<Rightarrow> bool" where
  "isnan NaN = True"
| "isnan (Fin a) = False"

fun fadd :: "pyfloat \<Rightarrow> pyfloat \<Rightarrow> pyfloat" where
  "fadd (Fin a) (Fin b) = Fin (a + b)"
| "fadd _ _ = NaN"

fun fsub :: "pyfloat \<Rightarrow> pyfloat \<Rightarrow> pyfloat" where
  "fsub (Fin a) (Fin b) = Fin (a - b)"
| "fsub _ _ = NaN"

fun fmul :: "pyfloat \<Rightarrow> pyfloat \<Rightarrow> pyfloat" where
  "fmul (Fin a) (Fin b) = Fin (a * b)"
| "fmul _ _ = NaN"

text \<open>
  \<open>fdiv\<close> is the division of the places where the divisor cannot be zero: a non-zero
  literal, or the numpy division of the normalizer behind its \<open>max_val == min_val\<close> test.
  \<open>py_truediv\<close> is the \<open>/\<close> of two Python floats, which raises on a zero divisor.
\<close>

fun fdiv :: "pyfloat \<Rightarrow> pyfloat \<Rightarrow> pyfloat" where
  "fdiv (Fin a) (Fin b) = Fin (a / b)"
| "fdiv _ _ = NaN"

definition py_truediv :: "pyfloat \<Rightarrow> pyfloat \<Rightarrow> error + pyfloat" where
  "py_truediv a b = (if b = Fin 0 then Inl ZeroDivisionError else Inr (fdiv a b))"

fun flt :: "pyfloat \<Rightarrow> pyfloat \<Rightarrow> bool" where
  "flt (Fin a) (Fin b) = (a < b)"
| "flt _ _ = False"

fun feq :: "pyfloat \<Rightarrow> pyfloat \<Rightarrow> bool" where
  "feq (Fin a) (Fin b) = (a = b)"
| "feq _ _ = False"


text \<open>Python's \<open>max(a, b)\<close>: the first argument stays unless the second is greater.\<close>

definition pymax :: "pyfloat \<Rightarrow> pyfloat \<Rightarrow> pyfloat" where
  "pymax a b = (if flt a b then b else a)"

subsection \<open>The normalizer\<close>

text \<open>The entries of an array that are numbers, in order.\<close>

fun numeric :: "pyfloat list \<Rightarrow> real list" where
  "numeric [] = []"
| "numeric (NaN # vs) = numeric vs"
| "numeric (Fin a # vs) = a # numeric vs"

text \<open>\<open>np.nanmin\<close> and \<open>np.nanmax\<close>: the extremum of the entries that are numbers.\<close>

definition nanmin :: "pyfloat list \<Rightarrow> pyfloat" where
  "nanmin vs = (case numeric vs of [] \<Rightarrow> NaN | a # as \<Rightarrow> Fin (fold min as a))"

definition nanmax :: "pyfloat list \<Rightarrow> pyfloat" where
  "nanmax vs = (case numeric vs of [] \<Rightarrow> NaN | a # as \<Rightarrow> Fin (fold max as a))"

text \<open>
  \<open>_normalize_score\<close>:
  \<^verbatim>\<open>
  if len(values) == 0 or np.all(np.isnan(values)):
      return np.zeros(len(values))
  min_val = np.nanmin(values); max_val = np.nanmax(values)
  if max_val == min_val:
      return np.full(len(values), 5.0)
  if inverse:
      normalized = 10 - (values - min_val) / (max_val - min_val) * 10
  else:
      normalized = (values - min_val) / (max_val - min_val) * 10
  \<close>
\<close>

definition normalize_score :: "pyfloat list \<Rightarrow> bool \<Rightarrow> pyfloat list" where
  "normalize_score values inverse_flag =
     (if length values = 0 \<or> list_all isnan values then replicate (length values) (Fin 0)
      else
        let min_val = nanmin values; max_val = nanmax values in
        if feq max_val min_val then replicate (length values) (Fin 5)
        else if inverse_flag then
          map (\<lambda>v. fsub (Fin 10)
                 (fmul (fdiv (fsub v min_val) (fsub max_val min_val)) (Fin 10))) values
        else
          map (\<lambda>v. fmul (fdiv (fsub v min_val) (fsub max_val min_val)) (Fin 10)) values)"

text \<open>
  The linear map of the normalizer in the words of its contract:
  \<open>(v - lo) / (hi - lo) * 10\<close>, or its complement to 10 when the inverse flag is set.
\<close>

definition linear_map :: "real \<Rightarrow> real \<Rightarrow> bool \<Rightarrow> real \<Rightarrow> real" where
  "linear_map lo hi inverse_flag v =
     (if inverse_flag then 10 - (v - lo) / (hi - lo) * 10 else (v - lo) / (hi - lo) * 10)"

subsection \<open>The normalizer over doubles\<close>

text \<open>
  What the linear branch of the normalizer returns is decided by the rounding and the
  overflow of double arithmetic, which exact reals do not have. Here the normalizer is
  modelled once more, over doubles: a double is not-a-number, an infinity or a number, and
  the arithmetic takes the rounding \<open>r\<close> as a parameter: \<open>r x\<close> is the double that the
  exact result \<open>x\<close> of an operation rounds to, an infinity when it overflows. The two
  zeros of a double are not told apart. Comparisons with not-a-number are false.
\<close>

datatype float64 = NaN64 | NInf64 | PInf64 | Num64 real

fun isnan64 :: "float64 \<Rightarrow> bool" where
  "isnan64 NaN64 = True"
| "isnan64 _ = False"

fun lt64 :: "float64 \<Rightarrow> float64 \<Rightarrow> bool" where
  "lt64 (Num64 a) (Num64 b) = (a < b)"
| "lt64 NInf64 (Num64 b) = True"
| "lt64 NInf64 PInf64 = True"
| "lt64 (Num64 a) PInf64 = True"
| "lt64 _ _ = False"

fun le64 :: "float64 \<Rightarrow> float64 \<Rightarrow> bool" where
  "le64 (Num64 a) (Num64 b) = (a \<le> b)"
| "le64 NaN64 _ = False"
| "le64 _ NaN64 = False"
| "le64 NInf64 _ = True"
| "le64 _ PInf64 = True"
| "le64 _ _ = False"

fun eq64 :: "float64 \<Rightarrow> float64 \<Rightarrow> bool" where
  "eq64 (Num64 a) (Num64 b) = (a = b)"
| "eq64 NInf64 NInf64 = True"
| "eq64 PInf64 PInf64 = True"
| "eq64 _ _ = False"

text \<open>Subtraction, multiplication and division of doubles, as IEEE 754 and numpy have
  them: the exact result rounded, and the usual rules for infinities and division by 0.\<close>

fun sub64 :: "(real \<Rightarrow> float64) \<Rightarrow> float64 \<Rightarrow> float64 \<Rightarrow> float64" where
  "sub64 r (Num64 a) (Num64 b) = r (a - b)"
| "sub64 r NaN64 _ = NaN64"
| "sub64 r _ NaN64 = NaN64"
| "sub64 r PInf64 PInf64 = NaN64"
| "sub64 r NInf64 NInf64 = NaN64"
| "sub64 r PInf64 _ = PInf64"
| "sub64 r NInf64 _ = NInf64"
| "sub64 r (Num64 a) PInf64 = NInf64"
| "sub64 r (Num64 a) NInf64 = PInf64"

fun mul64 :: "(real \<Rightarrow> float64) \<Rightarrow> float64 \<Rightarrow> float64 \<Rightarrow> float64" where
  "mul64 r (Num64 a) (Num64 b) = r (a * b)"
| "mul64 r NaN64 _ = NaN64"
| "mul64 r _ NaN64 = NaN64"
| "mul64 r (Num64 a) y =
     (if a = 0 then NaN64 else if (0 < a) = (y = PInf64) then PInf64 else NInf64)"
| "mul64 r x (Num64 b) =
     (if b = 0 then NaN64 else if (0 < b) = (x = PInf64) then PInf64 else NInf64)"
| "mul64 r x y = (if x = y then PInf64 else NInf64)"

fun div64 :: "(real \<Rightarrow> float64) \<Rightarrow> float64 \<Rightarrow> float64 \<Rightarrow> float64" where
  "div64 r (Num64 a) (Num64 b) =
     (if b = 0 then (if a = 0 then NaN64 else if 0 < a then PInf64 else NInf64)
      else r (a / b))"
| "div64 r NaN64 _ = NaN64"
| "div64 r _ NaN64 = NaN64"
| "div64 r (Num64 a) y = Num64 0"
| "div64 r x (Num64 b) = (if (0 \<le> b) = (x = PInf64) then PInf64 else NInf64)"
| "div64 r x y = NaN64"

text \<open>\<open>np.nanmin\<close>, \<open>np.nanmax\<close> and \<open>_normalize_score\<close> over doubles.\<close>

definition nanmin64 :: "float64 list \<Rightarrow> float64" where
  "nanmin64 vs =
     (case filter (\<lambda>v. \<not> isnan64 v) vs of
        [] \<Rightarrow> NaN64
      | a # as \<Rightarrow> fold (\<lambda>v m. if lt64 v m then v else m) as a)"

definition nanmax64 :: "float64 list \<Rightarrow> float64" where
  "nanmax64 vs =
     (case filter (\<lambda>v. \<not> isnan64 v) vs of
        [] \<Rightarrow> NaN64
      | a # as \<Rightarrow> fold (\<lambda>v m. if lt64 m v then v else m) as a)"

definition normalize_score64 :: "(real \<Rightarrow> float64) \<Rightarrow> float64 list \<Rightarrow> bool \<Rightarrow> float64 list" where
  "normalize_score64 r values inverse_flag =
     (if length values = 0 \<or> list_all isnan64 values
      then replicate (length values) (Num64 0)
      else
        let min_val = nanmin64 values; max_val = nanmax64 values in
        if eq64 max_val min_val then replicate (length values) (Num64 5)
        else if inverse_flag then
          map (\<lambda>v. sub64 r (Num64 10)
                 (mul64 r (div64 r (sub64 r v min_val) (sub64 r max_val min_val)) (Num64 10)))
            values
        else
          map (\<lambda>v. mul64 r (div64 r (sub64 r v min_val) (sub64 r max_val min_val)) (Num64 10))
            values)"

text \<open>
  A number is representable when it is a double: it rounds to itself. The laws of rounding
  that the properties of the normalizer need, all of which hold of the rounding to nearest
  of IEEE 754 doubles: rounding never gives not-a-number; it is monotonic; 0, 1 and 10 are
  doubles; and the difference of two distinct doubles does not round to 0 (gradual
  underflow).
\<close>

definition representable :: "(real \<Rightarrow> float64) \<Rightarrow> real \<Rightarrow> bool" where
  "representable r x = (r x = Num64 x)"

definition rounds_like_ieee :: "(real \<Rightarrow> float64) \<Rightarrow> bool" where
  "rounds_like_ieee r =
     ((\<forall>x. r x \<noteq> NaN64) \<and>
      (\<forall>x y. x \<le> y \<longrightarrow> le64 (r x) (r y)) \<and>
      r 0 = Num64 0 \<and> r 1 = Num64 1 \<and> r 10 = Num64 10 \<and>
      (\<forall>x y. representable r x \<and> representable r y \<and> r (x - y) = Num64 0 \<longrightarrow> x = y))"

text \<open>The linear map of the contract, \<open>(v - lo) / (hi - lo) * 10\<close> or its complement to
  10, computed in double arithmetic.\<close>

definition linear_map64 ::
  "(real \<Rightarrow> float64) \<Rightarrow> real \<Rightarrow> real \<Rightarrow> bool \<Rightarrow> real \<Rightarrow> float64" where
  "linear_map64 r lo hi inverse_flag v =
     (let t = mul64 r (div64 r (sub64 r (Num64 v) (Num64 lo)) (sub64 r (Num64 hi) (Num64 lo)))
                (Num64 10)
      in if inverse_flag then sub64 r (Num64 10) t else t)"

text \<open>
  Two roundings for the examples. \<open>exact_rounding\<close> has no rounding error and overflows
  from \<open>2 ^ 1024\<close> on: it agrees with the doubles wherever every exact result is a
  double or overflows. \<open>eighths_rounding\<close> rounds to the nearest multiple of 1/8: a
  coarse arithmetic with visible rounding errors.
\<close>

definition exact_rounding :: "real \<Rightarrow> float64" where
  "exact_rounding x =
     (if 2 ^ 1024 \<le> x then PInf64 else if x \<le> - (2 ^ 1024) then NInf64 else Num64 x)"

definition eighths_rounding :: "real \<Rightarrow> float64" where
  "eighths_rounding x =
     (if 2 ^ 1024 \<le> x then PInf64 else if x \<le> - (2 ^ 1024) then NInf64
      else Num64 (of_int (round (x * 8)) / 8))"

subsection \<open>Geometries, features and their attributes\<close>

text \<open>
  The geometry library is not part of the program: its four operations are parameters.
  \<open>'g\<close> is the type of geometries.
\<close>

record 'g shapely =
  intersects :: "'g \<Rightarrow> 'g \<Rightarrow> bool"
  distance :: "'g \<Rightarrow> 'g \<Rightarrow> pyfloat"
  intersection_area :: "'g \<Rightarrow> 'g \<Rightarrow> pyfloat"
  area :: "'g \<Rightarrow> pyfloat"

text \<open>
  A row of a reference layer: its geometry and its other columns in index order. Of a
  column's value only the outcome of \<open>float(value)\<close> matters: \<open>Some x\<close> when it converts
  to \<open>x\<close>, \<open>None\<close> when \<open>float\<close> raises.
\<close>

record 'g feature =
  geometry :: 'g
  columns :: "(string \<times> pyfloat option) list"

text \<open>\<open>str.lower\<close> on the ASCII letters, and the substring test \<open>sub in s\<close>.\<close>

definition lower_char :: "char \<Rightarrow> char" where
  "lower_char c =
     (case map_of (zip ''ABCDEFGHIJKLMNOPQRSTUVWXYZ'' ''abcdefghijklmnopqrstuvwxyz'') c of
        Some l \<Rightarrow> l
      | None \<Rightarrow> c)"

definition lower :: "string \<Rightarrow> string" where
  "lower s = map lower_char s"

fun starts_with :: "string \<Rightarrow> string \<Rightarrow> bool" where
  "starts_with [] s = True"
| "starts_with (c # cs) [] = False"
| "starts_with (c # cs) (d # ds) = (c = d \<and> starts_with cs ds)"

fun contains :: "string \<Rightarrow> string \<Rightarrow> bool" where
  "contains sub [] = (sub = [])"
| "contains sub (d # ds) = (starts_with sub (d # ds) \<or> contains sub ds)"

text \<open>
  The attribute scan every scorer repeats, with its tokens and its default:
  \<^verbatim>\<open>
  value = default
  for col in row.index:
      if tok1 in col.lower() or tok2 in col.lower() or tok3 in col.lower():
          try:
              value = float(row[col]); break
          except:
              continue
  \<close>
\<close>

fun attribute_value :: "string list \<Rightarrow> pyfloat \<Rightarrow> (string \<times> pyfloat option) list \<Rightarrow> pyfloat" where
  "attribute_value tokens dflt [] = dflt"
| "attribute_value tokens dflt ((col, v) # rest) =
     (if list_ex (\<lambda>tok. contains tok (lower col)) tokens then
        (case v of Some x \<Rightarrow> x | None \<Rightarrow> attribute_value tokens dflt rest)
      else attribute_value tokens dflt rest)"

text \<open>A loop over the grid that stops at the first exception.\<close>

fun for_each_cell :: "('a \<Rightarrow> error + 'b) \<Rightarrow> 'a list \<Rightarrow> error + 'b list" where
  "for_each_cell f [] = Inr []"
| "for_each_cell f (c # cs) =
     (case f c of
        Inl e \<Rightarrow> Inl e
      | Inr s \<Rightarrow> (case for_each_cell f cs of Inl e \<Rightarrow> Inl e | Inr ss \<Rightarrow> Inr (s # ss)))"

subsection \<open>Factor 1: tree mortality\<close>

text \<open>The inner loop of \<open>calculate_tree_mortality_score\<close> with its two accumulators.\<close>

fun mortality_loop ::
  "'g shapely \<Rightarrow> 'g \<Rightarrow> 'g feature list \<Rightarrow> pyfloat \<Rightarrow> pyfloat \<Rightarrow> pyfloat \<times> pyfloat" where
  "mortality_loop G cell [] total_intersection_area weighted_mortality =
     (total_intersection_area, weighted_mortality)"
| "mortality_loop G cell (mortality_area # rest) total_intersection_area weighted_mortality =
     (let area_i = intersection_area G cell (geometry mortality_area);
          mortality_value =
            attribute_value [''mort'', ''value'', ''rate''] (Fin 0) (columns mortality_area)
      in mortality_loop G cell rest
           (fadd total_intersection_area area_i)
           (fadd weighted_mortality (fmul mortality_value area_i)))"

definition mortality_cell_score :: "'g shapely \<Rightarrow> 'g feature list \<Rightarrow> 'g \<Rightarrow> error + pyfloat" where
  "mortality_cell_score G tree_mortality cell =
     (let overlaps = filter (\<lambda>m. intersects G (geometry m) cell) tree_mortality in
      if length overlaps > 0 then
        (case mortality_loop G cell overlaps (Fin 0) (Fin 0) of
           (total_intersection_area, weighted_mortality) \<Rightarrow>
             if flt (Fin 0) total_intersection_area
             then py_truediv weighted_mortality total_intersection_area
             else Inr (Fin 0))
      else Inr (Fin 0))"

text \<open>
  Every scorer returns its two new columns: the raw scores and the normalized ones. Its
  progress report then prints \<open>min(scores)\<close> and \<open>max(scores)\<close>, which raise a
  \<open>ValueError\<close> when the grid, and so the list of scores, is empty.
\<close>

definition calculate_tree_mortality_score ::
  "'g shapely \<Rightarrow> 'g list \<Rightarrow> 'g feature list \<Rightarrow> error + pyfloat list \<times> pyfloat list" where
  "calculate_tree_mortality_score G cutting_grid tree_mortality =
     (case for_each_cell (mortality_cell_score G tree_mortality) cutting_grid of
        Inl e \<Rightarrow> Inl e
      | Inr scores \<Rightarrow>
          if scores = [] then Inl ValueError else Inr (scores, normalize_score scores False))"

text \<open>
  The area-weighted average in the words of the contract: the sum of magnitude times
  intersection area over the sum of the intersection areas.
\<close>

definition fsum :: "pyfloat list \<Rightarrow> pyfloat" where
  "fsum vs = foldr fadd vs (Fin 0)"

definition mortality_magnitude :: "'g feature \<Rightarrow> pyfloat" where
  "mortality_magnitude m = attribute_value [''mort'', ''value'', ''rate''] (Fin 0) (columns m)"

definition area_weighted_average :: "'g shapely \<Rightarrow> 'g \<Rightarrow> 'g feature list \<Rightarrow> pyfloat" where
  "area_weighted_average G cell overlaps =
     fdiv (fsum (map (\<lambda>m. fmul (mortality_magnitude m) (intersection_area G cell (geometry m)))
                   overlaps))
          (fsum (map (\<lambda>m. intersection_area G cell (geometry m)) overlaps))"

subsection \<open>Factors 2, 3 and 5: proximity to community features, egress routes, utilities\<close>

definition community_feature_score :: "'g shapely \<Rightarrow> 'g \<Rightarrow> 'g feature \<Rightarrow> pyfloat" where
  "community_feature_score G cell feature =
     (let d = distance G cell (geometry feature);
          importance =
            attribute_value [''import'', ''prior'', ''weight''] (Fin 10) (columns feature)
      in if feq d (Fin 0) \<or> intersects G cell (geometry feature) then importance
         else if flt d (Fin 100) then fmul importance (fsub (Fin 1) (fdiv d (Fin 100)))
         else if flt d (Fin 300) then
           fmul (fmul importance (Fin 0.5)) (fsub (Fin 1) (fdiv (fsub d (Fin 100)) (Fin 200)))
         else Fin 0)"

definition community_cell_score :: "'g shapely \<Rightarrow> 'g feature list \<Rightarrow> 'g \<Rightarrow> pyfloat" where
  "community_cell_score G community_features cell =
     fold (\<lambda>feature max_score. pymax max_score (community_feature_score G cell feature))
       community_features (Fin 0)"

definition calculate_community_score ::
  "'g shapely \<Rightarrow> 'g list \<Rightarrow> 'g feature list \<Rightarrow> error + pyfloat list \<times> pyfloat list" where
  "calculate_community_score G cutting_grid community_features =
     (let scores = map (community_cell_score G community_features) cutting_grid
      in if scores = [] then Inl ValueError else Inr (scores, normalize_score scores False))"

definition egress_route_score :: "'g shapely \<Rightarrow> 'g \<Rightarrow> 'g feature \<Rightarrow> pyfloat" where
  "egress_route_score G cell route =
     (let d = distance G cell (geometry route);
          priority = attribute_value [''prior'', ''import'', ''class''] (Fin 10) (columns route)
      in if feq d (Fin 0) \<or> intersects G cell (geometry route) then priority
         else if flt d (Fin 50) then fmul priority (fsub (Fin 1) (fdiv d (Fin 50)))
         else if flt d (Fin 150) then
           fmul (fmul priority (Fin 0.5)) (fsub (Fin 1) (fdiv (fsub d (Fin 50)) (Fin 100)))
         else Fin 0)"

definition egress_cell_score :: "'g shapely \<Rightarrow> 'g feature list \<Rightarrow> 'g \<Rightarrow> pyfloat" where
  "egress_cell_score G egress_routes cell =
     fold (\<lambda>route max_score. pymax max_score (egress_route_score G cell route))
       egress_routes (Fin 0)"

definition calculate_egress_score ::
  "'g shapely \<Rightarrow> 'g list \<Rightarrow> 'g feature list \<Rightarrow> error + pyfloat list \<times> pyfloat list" where
  "calculate_egress_score G cutting_grid egress_routes =
     (let scores = map (egress_cell_score G egress_routes) cutting_grid
      in if scores = [] then Inl ValueError else Inr (scores, normalize_score scores False))"

text \<open>The five utility layers with their base priorities, in the order of the source.\<close>

definition utility_layers ::
  "'g feature list \<Rightarrow> 'g feature list \<Rightarrow> 'g feature list \<Rightarrow> 'g feature list \<Rightarrow>
   'g feature list \<Rightarrow> ('g feature list \<times> real) list" where
  "utility_layers transmission sub_transmission dist_circuits substations pole_top_subs =
     [(transmission, 10), (sub_transmission, 8), (dist_circuits, 6), (substations, 10),
      (pole_top_subs, 7)]"

definition utility_feature_score :: "'g shapely \<Rightarrow> 'g \<Rightarrow> real \<Rightarrow> 'g feature \<Rightarrow> pyfloat" where
  "utility_feature_score G cell base_priority utility =
     (let d = distance G cell (geometry utility)
      in if feq d (Fin 0) \<or> intersects G cell (geometry utility) then Fin base_priority
         else if flt d (Fin 30) then fmul (Fin base_priority) (fsub (Fin 1) (fdiv d (Fin 30)))
         else if flt d (Fin 100) then
           fmul (fmul (Fin base_priority) (Fin 0.5))
             (fsub (Fin 1) (fdiv (fsub d (Fin 30)) (Fin 70)))
         else Fin 0)"

definition utility_cell_score ::
  "'g shapely \<Rightarrow> ('g feature list \<times> real) list \<Rightarrow> 'g \<Rightarrow> pyfloat" where
  "utility_cell_score G layers cell =
     fold (\<lambda>(utility_layer, base_priority) max_score.
             fold (\<lambda>utility max_score.
                     pymax max_score (utility_feature_score G cell base_priority utility))
               utility_layer max_score)
       layers (Fin 0)"

definition calculate_utility_score ::
  "'g shapely \<Rightarrow> 'g list \<Rightarrow> ('g feature list \<times> real) list \<Rightarrow>
   error + pyfloat list \<times> pyfloat list" where
  "calculate_utility_score G cutting_grid layers =
     (let scores = map (utility_cell_score G layers) cutting_grid
      in if scores = [] then Inl ValueError else Inr (scores, normalize_score scores False))"

text \<open>
  The decay of the contract, with the two radii as parameters: the full magnitude when the
  cell intersects or touches the feature, a linear decay inside the near radius, a second
  decay from half the magnitude up to the far radius, and nothing beyond.
\<close>

definition touches :: "'g shapely \<Rightarrow> 'g \<Rightarrow> 'g \<Rightarrow> bool" where
  "touches G cell g = (feq (distance G cell g) (Fin 0) \<or> intersects G cell g)"

definition decay_contribution :: "real \<Rightarrow> real \<Rightarrow> pyfloat \<Rightarrow> bool \<Rightarrow> pyfloat \<Rightarrow> pyfloat" where
  "decay_contribution near far magnitude touching d =
     (if touching then magnitude
      else if flt d (Fin near) then fmul magnitude (fsub (Fin 1) (fdiv d (Fin near)))
      else if flt d (Fin far) then
        fmul (fmul magnitude (Fin 0.5))
          (fsub (Fin 1) (fdiv (fsub d (Fin near)) (Fin (far - near))))
      else Fin 0)"

definition community_contributions :: "'g shapely \<Rightarrow> 'g \<Rightarrow> 'g feature list \<Rightarrow> pyfloat list" where
  "community_contributions G cell fs =
     map (\<lambda>f. decay_contribution 100 300
                 (attribute_value [''import'', ''prior'', ''weight''] (Fin 10) (columns f))
                 (touches G cell (geometry f)) (distance G cell (geometry f))) fs"

definition egress_contributions :: "'g shapely \<Rightarrow> 'g \<Rightarrow> 'g feature list \<Rightarrow> pyfloat list" where
  "egress_contributions G cell fs =
     map (\<lambda>f. decay_contribution 50 150
                 (attribute_value [''prior'', ''import'', ''class''] (Fin 10) (columns f))
                 (touches G cell (geometry f)) (distance G cell (geometry f))) fs"

definition utility_contributions ::
  "'g shapely \<Rightarrow> 'g \<Rightarrow> real \<Rightarrow> 'g feature list \<Rightarrow> pyfloat list" where
  "utility_contributions G cell base fs =
     map (\<lambda>f. decay_contribution 30 100 (Fin base)
                 (touches G cell (geometry f)) (distance G cell (geometry f))) fs"

text \<open>
  \<open>r\<close> is a maximum of the values \<open>cs\<close>: one of them, and none of them is greater.
\<close>

definition is_maximum :: "pyfloat \<Rightarrow> pyfloat list \<Rightarrow> bool" where
  "is_maximum r cs = (r \<in> set cs \<and> list_all (\<lambda>c. \<not> flt r c) cs)"

subsection \<open>Factor 4: populated areas\<close>

fun population_loop ::
  "'g shapely \<Rightarrow> 'g \<Rightarrow> 'g feature list \<Rightarrow> pyfloat \<Rightarrow> error + pyfloat" where
  "population_loop G cell [] total_score = Inr total_score"
| "population_loop G cell (a # rest) total_score =
     (if intersects G cell (geometry a) then
        (case py_truediv (intersection_area G cell (geometry a)) (area G cell) of
           Inl e \<Rightarrow> Inl e
         | Inr ratio \<Rightarrow>
             (let pop_density =
                    attribute_value [''pop'', ''dens'', ''people''] (Fin 10) (columns a)
              in population_loop G cell rest (fadd total_score (fmul ratio pop_density))))
      else population_loop G cell rest total_score)"

definition population_cell_score :: "'g shapely \<Rightarrow> 'g feature list \<Rightarrow> 'g \<Rightarrow> error + pyfloat" where
  "population_cell_score G populated_areas cell = population_loop G cell populated_areas (Fin 0)"

definition calculate_population_score ::
  "'g shapely \<Rightarrow> 'g list \<Rightarrow> 'g feature list \<Rightarrow> error + pyfloat list \<times> pyfloat list" where
  "calculate_population_score G cutting_grid populated_areas =
     (case for_each_cell (population_cell_score G populated_areas) cutting_grid of
        Inl e \<Rightarrow> Inl e
      | Inr scores \<Rightarrow>
          if scores = [] then Inl ValueError else Inr (scores, normalize_score scores False))"

text \<open>
  The accumulated exposure in the words of the contract: the sum, over the populated
  areas that intersect the cell, of the covered ratio of the cell times the density.
\<close>

definition population_density :: "'g feature \<Rightarrow> pyfloat" where
  "population_density a = attribute_value [''pop'', ''dens'', ''people''] (Fin 10) (columns a)"

definition coverage_ratio :: "'g shapely \<Rightarrow> 'g \<Rightarrow> 'g feature \<Rightarrow> pyfloat" where
  "coverage_ratio G cell a = fdiv (intersection_area G cell (geometry a)) (area G cell)"

definition accumulated_exposure :: "'g shapely \<Rightarrow> 'g \<Rightarrow> 'g feature list \<Rightarrow> pyfloat" where
  "accumulated_exposure G cell populated_areas =
     fsum (map (\<lambda>a. fmul (coverage_ratio G cell a) (population_density a))
             (filter (\<lambda>a. intersects G cell (geometry a)) populated_areas))"

subsection \<open>The priority aggregator\<close>

text \<open>The dictionary \<open>self.weights\<close>, one field for each of its five keys.\<close>

record weights =
  tree_mortality_weight :: real
  community_features_weight :: real
  egress_routes_weight :: real
  populated_areas_weight :: real
  electric_utilities_weight :: real

text \<open>The weights that \<open>__init__\<close> sets.\<close>

definition init_weights :: weights where
  "init_weights =
     \<lparr>tree_mortality_weight = 0.25, community_features_weight = 0.20,
      egress_routes_weight = 0.20, populated_areas_weight = 0.20,
      electric_utilities_weight = 0.15\<rparr>"

text \<open>The five normalized columns of one grid cell.\<close>

record norm_row =
  mortality_score_norm :: pyfloat
  community_score_norm :: pyfloat
  egress_score_norm :: pyfloat
  population_score_norm :: pyfloat
  utility_score_norm :: pyfloat

datatype priority_label = Very_Low | Low | Medium | High | Very_High

text \<open>The columns that \<open>calculate_overall_priority\<close> adds to a grid cell.\<close>

record priority_row = norm_row +
  overall_priority :: pyfloat
  priority_normalized :: pyfloat
  priority_class :: "priority_label option"
  priority_rank :: int

text \<open>
  The weighted sum of a row, in the order in which the source adds its five products. Over
  exact reals it cannot overflow; neither can the float sum of normalized scores, which
  lie in [0, 10], with weights of ordinary size.
\<close>

definition weighted_sum :: "weights \<Rightarrow> norm_row \<Rightarrow> pyfloat" where
  "weighted_sum w r =
     fadd (fadd (fadd (fadd
       (fmul (mortality_score_norm r) (Fin (tree_mortality_weight w)))
       (fmul (community_score_norm r) (Fin (community_features_weight w))))
       (fmul (egress_score_norm r) (Fin (egress_routes_weight w))))
       (fmul (population_score_norm r) (Fin (populated_areas_weight w))))
       (fmul (utility_score_norm r) (Fin (electric_utilities_weight w)))"

text \<open>
  \<open>pd.cut(x, bins, labels, include_lowest=True)\<close> with its default \<open>right=True\<close>, as
  pandas computes it: the bin of a value is the number of edges below it
  (\<open>bins.searchsorted(x, side="left")\<close>), a value equal to the first edge goes to the
  first bin, and a value in no bin, or \<open>NaN\<close>, has no label.
\<close>

definition cut :: "real list \<Rightarrow> 'a list \<Rightarrow> pyfloat \<Rightarrow> 'a option" where
  "cut bins labels x =
     (case x of
        NaN \<Rightarrow> None
      | Fin v \<Rightarrow>
          (let ids = (if v = hd bins then 1 else length (filter (\<lambda>b. b < v) bins))
           in if ids = length bins \<or> ids = 0 then None else Some (labels ! (ids - 1))))"

definition classify :: "pyfloat \<Rightarrow> priority_label option" where
  "classify x = cut [0, 2, 4, 6, 8, 10] [Very_Low, Low, Medium, High, Very_High] x"

text \<open>
  \<open>Series.rank(ascending=False, method="dense")\<close>: the numeric entries are sorted by
  descending value, keeping their positions; walking the sorted entries, the rank starts
  at 1 and grows by one whenever the value changes. A \<open>NaN\<close> entry has no rank.
\<close>

fun numeric_indexed :: "nat \<Rightarrow> pyfloat list \<Rightarrow> (nat \<times> real) list" where
  "numeric_indexed i [] = []"
| "numeric_indexed i (NaN # vs) = numeric_indexed (Suc i) vs"
| "numeric_indexed i (Fin a # vs) = (i, a) # numeric_indexed (Suc i) vs"

fun dense_walk :: "(nat \<times> real) list \<Rightarrow> nat \<Rightarrow> (nat \<times> nat) list" where
  "dense_walk [] r = []"
| "dense_walk [(i, a)] r = [(i, r)]"
| "dense_walk ((i, a) # (j, b) # rest) r =
     (i, r) # dense_walk ((j, b) # rest) (if b = a then r else Suc r)"

definition rank_dense_descending :: "pyfloat list \<Rightarrow> nat option list" where
  "rank_dense_descending vs =
     (let order = sort_key (\<lambda>(i, a). - a) (numeric_indexed 0 vs);
          table = dense_walk order 1
      in map (map_of table) [0..<length vs])"

text \<open>\<open>.astype(int)\<close> raises a \<open>ValueError\<close> on a missing rank.\<close>

fun astype_int :: "nat option list \<Rightarrow> error + int list" where
  "astype_int [] = Inr []"
| "astype_int (None # rs) = Inl ValueError"
| "astype_int (Some r # rs) =
     (case astype_int rs of Inl e \<Rightarrow> Inl e | Inr ks \<Rightarrow> Inr (int r # ks))"

definition calculate_overall_priority :: "weights \<Rightarrow> norm_row list \<Rightarrow> error + priority_row list" where
  "calculate_overall_priority w grid =
     (let overall = map (weighted_sum w) grid;
          normalized = normalize_score overall False;
          classes = map classify normalized
      in case astype_int (rank_dense_descending normalized) of
           Inl e \<Rightarrow> Inl e
         | Inr ranks \<Rightarrow>
             Inr (map (\<lambda>i. norm_row.extend (grid ! i)
                             \<lparr>overall_priority = overall ! i,
                              priority_normalized = normalized ! i,
                              priority_class = classes ! i,
                              priority_rank = ranks ! i\<rparr>)
                    [0..<length grid]))"

text \<open>The layers that \<open>load_data\<close> reads.\<close>

record 'g layers =
  cutting_grid :: "'g list"
  tree_mortality :: "'g feature list"
  community_features :: "'g feature list"
  egress_routes :: "'g feature list"
  populated_areas :: "'g feature list"
  transmission :: "'g feature list"
  sub_transmission :: "'g feature list"
  dist_circuits :: "'g feature list"
  substations :: "'g feature list"
  pole_top_subs :: "'g feature list"

text \<open>
  \<open>run_analysis\<close> between loading and saving: the five scorers in order, then the
  aggregator, with the weights of the object.
\<close>

definition run_analysis :: "'g shapely \<Rightarrow> 'g layers \<Rightarrow> weights \<Rightarrow> error + priority_row list" where
  "run_analysis G L w =
     (case calculate_tree_mortality_score G (cutting_grid L) (tree_mortality L) of
        Inl e \<Rightarrow> Inl e
      | Inr (mortality, mortality_norm) \<Rightarrow>
          (case calculate_community_score G (cutting_grid L) (community_features L) of
             Inl e \<Rightarrow> Inl e
           | Inr (community, community_norm) \<Rightarrow>
          (case calculate_egress_score G (cutting_grid L) (egress_routes L) of
             Inl e \<Rightarrow> Inl e
           | Inr (egress, egress_norm) \<Rightarrow>
          (case calculate_population_score G (cutting_grid L) (populated_areas L) of
             Inl e \<Rightarrow> Inl e
           | Inr (population, population_norm) \<Rightarrow>
          (case calculate_utility_score G (cutting_grid L)
                  (utility_layers (transmission L) (sub_transmission L) (dist_circuits L)
                     (substations L) (pole_top_subs L)) of
             Inl e \<Rightarrow> Inl e
           | Inr (utility, utility_norm) \<Rightarrow>
               calculate_overall_priority w
                 (map (\<lambda>i. \<lparr>mortality_score_norm = mortality_norm ! i,
                             community_score_norm = community_norm ! i,
                             egress_score_norm = egress_norm ! i,
                             population_score_norm = population_norm ! i,
                             utility_score_norm = utility_norm ! i\<rparr>)
                    [0..<length (cutting_grid L)]))))))"

subsection \<open>A concrete geometry for the examples\<close>

text \<open>
  \<open>Strip x0 x1\<close> is the rectangle of height 1 over the interval from \<open>x0\<close> to \<open>x1\<close> of the
  x axis, borders included. Areas, intersections and distances of such rectangles are
  those of their intervals; \<open>Strip x x\<close> is a degenerate rectangle of area 0.
\<close>

datatype strip = Strip real real

fun strip_intersects :: "strip \<Rightarrow> strip \<Rightarrow> bool" where
  "strip_intersects (Strip a0 a1) (Strip b0 b1) = (a0 \<le> b1 \<and> b0 \<le> a1)"

fun strip_distance :: "strip \<Rightarrow> strip \<Rightarrow> pyfloat" where
  "strip_distance (Strip a0 a1) (Strip b0 b1) = Fin (max 0 (max a0 b0 - min a1 b1))"

fun strip_intersection_area :: "strip \<Rightarrow> strip \<Rightarrow> pyfloat" where
  "strip_intersection_area (Strip a0 a1) (Strip b0 b1) = Fin (max 0 (min a1 b1 - max a0 b0))"

fun strip_area :: "strip \<Rightarrow> pyfloat" where
  "strip_area (Strip x0 x1) = Fin (x1 - x0)"

definition strips :: "strip shapely" where
  "strips =
     \<lparr>intersects = strip_intersects, distance = strip_distance,
      intersection_area = strip_intersection_area, area = strip_area\<rparr>"

text \<open>The mortality scenario: a cell of area 100, covered by a feature of magnitude 4
  over 60 of its area and by an adjacent feature of magnitude 8 over the other 40.\<close>

definition mortality_example :: "strip feature list" where
  "mortality_example =
     [\<lparr>geometry = Strip 0 60,
       columns = [(''OBJECTID'', Some (Fin 1)), (''Mort_Rate'', Some (Fin 4))]\<rparr>,
      \<lparr>geometry = Strip 60 100,
       columns = [(''NAME'', None), (''VALUE'', Some (Fin 8))]\<rparr>]"

text \<open>The population scenario for the cell \<open>Strip 0 10\<close>: an area of density 6 that covers
  it, an area of density 4 that covers half of it, and an area away from it.\<close>

definition population_example :: "strip feature list" where
  "population_example =
     [\<lparr>geometry = Strip 0 10, columns = [(''POP_DENS'', Some (Fin 6))]\<rparr>,
      \<lparr>geometry = Strip 5 20, columns = [(''Name'', None), (''People'', Some (Fin 4))]\<rparr>,
      \<lparr>geometry = Strip 30 40, columns = []\<rparr>]"

text \<open>Features for the proximity scenarios, all seen from the cell \<open>Strip 0 10\<close>: a
  community feature inside the cell whose importance column holds -5; community features
  without a matching column at distances 50 and 200; egress routes at distance 25 with no
  matching column, and at distance 10 with priority -3 and with a priority that is not a
  number; utilities at distances 15 and 65.\<close>

definition negative_feature :: "strip feature" where
  "negative_feature = \<lparr>geometry = Strip 5 6, columns = [(''IMPORTANCE'', Some (Fin (- 5)))]\<rparr>"

definition community_example :: "strip feature list" where
  "community_example =
     [\<lparr>geometry = Strip 210 220, columns = [(''NAME'', None)]\<rparr>,
      \<lparr>geometry = Strip 60 70, columns = []\<rparr>]"

definition egress_example :: "strip feature list" where
  "egress_example = [\<lparr>geometry = Strip 35 90, columns = [(''ROUTE_ID'', Some (Fin 7))]\<rparr>]"

definition negative_routes :: "strip feature list" where
  "negative_routes =
     [\<lparr>geometry = Strip 20 30, columns = [(''Priority'', Some (Fin (- 3)))]\<rparr>,
      \<lparr>geometry = Strip 20 30, columns = [(''Priority'', Some NaN)]\<rparr>]"

definition utility_example :: "(strip feature list \<times> real) list" where
  "utility_example =
     utility_layers [] [] [\<lparr>geometry = Strip 25 40, columns = []\<rparr>] []
       [\<lparr>geometry = Strip 75 76, columns = []\<rparr>]"

text \<open>A grid row whose five normalized scores are numbers.\<close>

definition numeric_row :: "norm_row \<Rightarrow> bool" where
  "numeric_row r =
     (\<not> isnan (mortality_score_norm r) \<and> \<not> isnan (community_score_norm r) \<and>
      \<not> isnan (egress_score_norm r) \<and> \<not> isnan (population_score_norm r) \<and>
      \<not> isnan (utility_score_norm r))"

text \<open>The boundary scenario: four cells, of which the second and the fourth lie in a
  mortality area of magnitude 1 and the third in one of magnitude 5, and no other
  feature at all. The mortality scores 0, 1, 5, 1 normalize to 0, 2, 10, 2; the other four
  factors are flat and normalize to 5.\<close>

definition boundary_layers :: "strip layers" where
  "boundary_layers =
     \<lparr>cutting_grid = [Strip 0 10, Strip 20 30, Strip 40 50, Strip 60 70],
      tree_mortality =
        [\<lparr>geometry = Strip 20 30, columns = [(''MORTALITY'', Some (Fin 1))]\<rparr>,
         \<lparr>geometry = Strip 40 50, columns = [(''MORTALITY'', Some (Fin 5))]\<rparr>,
         \<lparr>geometry = Strip 60 70, columns = [(''MORTALITY'', Some (Fin 1))]\<rparr>],
      community_features = [],
      egress_routes = [],
      populated_areas = [],
      transmission = [],
      sub_transmission = [],
      dist_circuits = [],
      substations = [],
      pole_top_subs = []\<rparr>"

definition mortality_row :: "real \<Rightarrow> norm_row" where
  "mortality_row m =
     \<lparr>mortality_score_norm = Fin m, community_score_norm = Fin 5, egress_score_norm = Fin 5,
      population_score_norm = Fin 5, utility_score_norm = Fin 5\<rparr>"

definition aggregator_example :: "norm_row list" where
  "aggregator_example = map mortality_row [0, 2, 10, 2]"

text \<open>
  A normalized score as the normalizer produces it, a number between 0 and 10; a grid
  row of five such scores; and weights of ordinary size, each between -1 and 1, whatever
  their sum and their signs. With such rows and weights the weighted sum stays far from
  the overflow of a float.
\<close>

fun scaled :: "pyfloat \<Rightarrow> bool" where
  "scaled (Fin a) = (0 \<le> a \<and> a \<le> 10)"
| "scaled NaN = False"

definition scaled_row :: "norm_row \<Rightarrow> bool" where
  "scaled_row r =
     (scaled (mortality_score_norm r) \<and> scaled (community_score_norm r) \<and>
      scaled (egress_score_norm r) \<and> scaled (population_score_norm r) \<and>
      scaled (utility_score_norm r))"

definition modest_weights :: "weights \<Rightarrow> bool" where
  "modest_weights w =
     (\<bar>tree_mortality_weight w\<bar> \<le> 1 \<and> \<bar>community_features_weight w\<bar> \<le> 1 \<and>
      \<bar>egress_routes_weight w\<bar> \<le> 1 \<and> \<bar>populated_areas_weight w\<bar> \<le> 1 \<and>
      \<bar>electric_utilities_weight w\<bar> \<le> 1)"

text \<open>Sets of weights of sum 0.95 and 1.05, and one with a weight that is not positive.\<close>

definition inflated_weights :: weights where
  "inflated_weights =
     \<lparr>tree_mortality_weight = 0.25, community_features_weight = 0.20,
      egress_routes_weight = 0.20, populated_areas_weight = 0.20,
      electric_utilities_weight = 0.20\<rparr>"

definition signed_weights :: weights where
  "signed_weights =
     \<lparr>tree_mortality_weight = 0.5, community_features_weight = 0.5,
      egress_routes_weight = 0.5, populated_areas_weight = 0,
      electric_utilities_weight = - 0.5\<rparr>"


definition skewed_weights :: weights where
  "skewed_weights =
     \<lparr>tree_mortality_weight = 0.25, community_features_weight = 0.20,
      egress_routes_weight = 0.20, populated_areas_weight = 0.20,
      electric_utilities_weight = 0.10\<rparr>"

text \<open>A whole input for \<open>run_analysis\<close>: three cells and the layers of the scenarios.\<close>

definition example_layers :: "strip layers" where
  "example_layers =
     \<lparr>cutting_grid = [Strip 0 10, Strip 10 20, Strip 100 110],
      tree_mortality = mortality_example,
      community_features = community_example,
      egress_routes = egress_example,
      populated_areas = population_example,
      transmission = [],
      sub_transmission = [],
      dist_circuits = [\<lparr>geometry = Strip 25 40, columns = []\<rparr>],
      substations = [],
      pole_top_subs = [\<lparr>geometry = Strip 75 76, columns = []\<rparr>]\<rparr>"

section \<open>Properties\<close>

subsection \<open>The normalizer\<close>

lemma numeric_all_nan: "list_all isnan vs \<longleftrightarrow> numeric vs = []"
  by (induction vs rule: numeric.induct) auto

lemma numeric_Fin: "numeric (map Fin xs) = xs"
  by (induction xs) auto

lemma nanmin_Min: "numeric vs \<noteq> [] \<Longrightarrow> nanmin vs = Fin (Min (set (numeric vs)))"
  by (cases "numeric vs") (simp_all add: nanmin_def Min.set_eq_fold [symmetric] del: set_simps)

lemma nanmax_Max: "numeric vs \<noteq> [] \<Longrightarrow> nanmax vs = Fin (Max (set (numeric vs)))"
  by (cases "numeric vs") (simp_all add: nanmax_def Max.set_eq_fold [symmetric] del: set_simps)

lemma normalize_score_empty: "normalize_score [] f = []"
  by (simp add: normalize_score_def)

lemma normalize_score_all_nan:
  "list_all isnan vs \<Longrightarrow> normalize_score vs f = replicate (length vs) (Fin 0)"
  by (simp add: normalize_score_def)

lemma normalize_score_flat:
  assumes "numeric vs \<noteq> []" and "Min (set (numeric vs)) = Max (set (numeric vs))"
  shows "normalize_score vs f = replicate (length vs) (Fin 5)"
proof -
  from assms(1) have "\<not> list_all isnan vs" "vs \<noteq> []"
    by (auto simp: numeric_all_nan)
  moreover have "feq (nanmax vs) (nanmin vs)"
    using assms by (simp add: nanmin_Min nanmax_Max)
  ultimately show ?thesis
    by (simp add: normalize_score_def Let_def)
qed

lemma normalize_score_linear:
  assumes "xs \<noteq> []" and "Min (set xs) \<noteq> Max (set xs)"
  shows "normalize_score (map Fin xs) f =
           map (\<lambda>v. Fin (linear_map (Min (set xs)) (Max (set xs)) f v)) xs"
proof -
  have n: "numeric (map Fin xs) = xs" by (rule numeric_Fin)
  have "\<not> list_all isnan (map Fin xs)"
    using assms(1) by (simp add: numeric_all_nan n)
  moreover have "nanmin (map Fin xs) = Fin (Min (set xs))"
    and "nanmax (map Fin xs) = Fin (Max (set xs))"
    using assms(1) nanmin_Min [of "map Fin xs"] nanmax_Max [of "map Fin xs"]
    by (simp_all add: n)
  ultimately show ?thesis
    using assms by (simp add: normalize_score_def Let_def linear_map_def)
qed

lemma linear_map_bounds:
  assumes "lo < hi" "lo \<le> v" "v \<le> hi"
  shows "0 \<le> linear_map lo hi f v \<and> linear_map lo hi f v \<le> 10"
proof -
  define t where "t = (v - lo) / (hi - lo)"
  have t: "0 \<le> t" "t \<le> 1" using assms by (simp_all add: t_def)
  have "linear_map lo hi f v = (if f then 10 - t * 10 else t * 10)"
    by (simp only: linear_map_def t_def)
  with t show ?thesis by (cases f) simp_all
qed

lemma linear_map_mono:
  assumes "lo < hi"
  shows "linear_map lo hi False v \<le> linear_map lo hi False w \<longleftrightarrow> v \<le> w"
    and "linear_map lo hi True v \<le> linear_map lo hi True w \<longleftrightarrow> w \<le> v"
  using assms by (simp_all add: linear_map_def divide_le_cancel)

lemma linear_map_ends:
  assumes "lo < hi"
  shows "linear_map lo hi f lo = (if f then 10 else 0)"
    and "linear_map lo hi f hi = (if f then 0 else 10)"
  using assms by (simp_all add: linear_map_def)

text \<open>
  Claim C7. The normalizer returns the empty sequence for the empty sequence; zeros
  when every entry is \<open>NaN\<close>; and 5.0 at every position, \<open>NaN\<close> positions included, when
  the sequence has numeric entries whose minimum equals their maximum.
\<close>

theorem normalize_score_degenerate:
  "normalize_score [] f = [] \<and>
   (list_all isnan vs \<longrightarrow> normalize_score vs f = replicate (length vs) (Fin 0)) \<and>
   (numeric vs \<noteq> [] \<and> Min (set (numeric vs)) = Max (set (numeric vs)) \<longrightarrow>
      normalize_score vs f = replicate (length vs) (Fin 5))"
  using normalize_score_empty normalize_score_all_nan normalize_score_flat by blast

theorem normalize_score_degenerate_witness:
  "list_all isnan [NaN, NaN] \<and>
   normalize_score [NaN, NaN] True = [Fin 0, Fin 0] \<and>
   numeric [Fin 3, NaN, Fin 3] \<noteq> [] \<and>
   Min (set (numeric [Fin 3, NaN, Fin 3])) = Max (set (numeric [Fin 3, NaN, Fin 3])) \<and>
   normalize_score [Fin 3, NaN, Fin 3] False = [Fin 5, Fin 5, Fin 5]"
  using normalize_score_degenerate [of True "[NaN, NaN]"]
    normalize_score_degenerate [of False "[Fin 3, NaN, Fin 3]"]
  by simp

subsection \<open>The normalizer over doubles\<close>

lemma rounding_mono:
  "rounds_like_ieee r \<Longrightarrow> x \<le> y \<Longrightarrow> r x = Num64 a \<Longrightarrow> r y = Num64 b \<Longrightarrow> a \<le> b"
  unfolding rounds_like_ieee_def by (metis le64.simps(1))

lemma rounding_between:
  assumes "rounds_like_ieee r" and "r p = Num64 p'" and "r q = Num64 q'"
    and "p \<le> x" and "x \<le> q"
  shows "\<exists>a. r x = Num64 a \<and> p' \<le> a \<and> a \<le> q'"
proof -
  have lo: "le64 (r p) (r x)" and hi: "le64 (r x) (r q)"
    using assms(1,4,5) unfolding rounds_like_ieee_def by blast+
  show ?thesis
  proof (cases "r x")
    case NaN64
    with lo assms(2) show ?thesis by simp
  next
    case NInf64
    with lo assms(2) show ?thesis by simp
  next
    case PInf64
    with hi assms(3) show ?thesis by simp
  next
    case (Num64 a)
    with lo hi assms(2,3) show ?thesis by simp
  qed
qed

lemma rounding_exact:
  assumes "rounds_like_ieee r"
  shows "r 0 = Num64 0" and "r 1 = Num64 1" and "r 10 = Num64 10"
  using assms unfolding rounds_like_ieee_def by blast+

text \<open>The range of a sequence of distinct doubles is positive when it does not overflow.\<close>

lemma range_positive:
  assumes "rounds_like_ieee r" and "representable r lo" and "representable r hi"
    and "lo < hi" and "r (hi - lo) = Num64 d"
  shows "0 < d"
proof -
  have "0 \<le> d"
    using rounding_mono [OF assms(1) _ rounding_exact(1) [OF assms(1)] assms(5)] assms(4)
    by simp
  moreover have "d \<noteq> 0"
  proof
    assume "d = 0"
    with assms(5) have "r (hi - lo) = Num64 0" by simp
    with assms(1,2,3) have "hi = lo"
      unfolding rounds_like_ieee_def by blast
    with assms(4) show False by simp
  qed
  ultimately show ?thesis by simp
qed

text \<open>The stages of the linear map for a value between the minimum and the maximum.\<close>

lemma linear_map64_stages:
  assumes r: "rounds_like_ieee r" and d: "r (hi - lo) = Num64 d" "0 < d"
    and v: "lo \<le> v" "v \<le> hi"
  shows "\<exists>a q y z. r (v - lo) = Num64 a \<and> 0 \<le> a \<and> a \<le> d \<and>
           r (a / d) = Num64 q \<and> 0 \<le> q \<and> q \<le> 1 \<and>
           r (q * 10) = Num64 y \<and> 0 \<le> y \<and> y \<le> 10 \<and>
           r (10 - y) = Num64 z \<and> 0 \<le> z \<and> z \<le> 10 \<and>
           linear_map64 r lo hi False v = Num64 y \<and>
           linear_map64 r lo hi True v = Num64 z"
proof -
  note ex = rounding_exact [OF r]
  obtain a where a: "r (v - lo) = Num64 a" "0 \<le> a" "a \<le> d"
    using rounding_between [OF r ex(1) d(1), of "v - lo"] v by auto
  have "0 \<le> a / d" "a / d \<le> 1" using a d(2) by simp_all
  then obtain q where q: "r (a / d) = Num64 q" "0 \<le> q" "q \<le> 1"
    using rounding_between [OF r ex(1) ex(2), of "a / d"] by auto
  have "0 \<le> q * 10" "q * 10 \<le> 10" using q by simp_all
  then obtain y where y: "r (q * 10) = Num64 y" "0 \<le> y" "y \<le> 10"
    using rounding_between [OF r ex(1) ex(3), of "q * 10"] by auto
  have "0 \<le> 10 - y" "10 - y \<le> 10" using y by simp_all
  then obtain z where z: "r (10 - y) = Num64 z" "0 \<le> z" "z \<le> 10"
    using rounding_between [OF r ex(1) ex(3), of "10 - y"] by auto
  have "linear_map64 r lo hi False v = Num64 y" "linear_map64 r lo hi True v = Num64 z"
    using a q y z d by (simp_all add: linear_map64_def)
  with a q y z show ?thesis by blast
qed

lemma linear_map64_mono:
  assumes r: "rounds_like_ieee r" and d: "r (hi - lo) = Num64 d" "0 < d"
    and v: "lo \<le> v" "v \<le> w" "w \<le> hi"
  shows "le64 (linear_map64 r lo hi False v) (linear_map64 r lo hi False w)"
    and "le64 (linear_map64 r lo hi True w) (linear_map64 r lo hi True v)"
proof -
  from linear_map64_stages [OF r d, of v] v obtain a q y z
    where s: "r (v - lo) = Num64 a" "r (a / d) = Num64 q" "r (q * 10) = Num64 y"
      "r (10 - y) = Num64 z" "linear_map64 r lo hi False v = Num64 y"
      "linear_map64 r lo hi True v = Num64 z"
    by auto
  from linear_map64_stages [OF r d, of w] v obtain a' q' y' z'
    where t: "r (w - lo) = Num64 a'" "r (a' / d) = Num64 q'" "r (q' * 10) = Num64 y'"
      "r (10 - y') = Num64 z'" "linear_map64 r lo hi False w = Num64 y'"
      "linear_map64 r lo hi True w = Num64 z'"
    by auto
  have "a \<le> a'" using rounding_mono [OF r _ s(1) t(1)] v(2) by simp
  then have "a / d \<le> a' / d" using d(2) by (simp add: divide_right_mono)
  then have "q \<le> q'" using rounding_mono [OF r _ s(2) t(2)] by simp
  then have yy: "y \<le> y'" using rounding_mono [OF r _ s(3) t(3)] by simp
  then have "z' \<le> z" using rounding_mono [OF r _ t(4) s(4)] by simp
  with yy show "le64 (linear_map64 r lo hi False v) (linear_map64 r lo hi False w)"
    and "le64 (linear_map64 r lo hi True w) (linear_map64 r lo hi True v)"
    by (simp_all add: s t)
qed

lemma linear_map64_ends:
  assumes r: "rounds_like_ieee r" and d: "r (hi - lo) = Num64 d" "0 < d"
  shows "linear_map64 r lo hi f lo = Num64 (if f then 10 else 0)"
    and "linear_map64 r lo hi f hi = Num64 (if f then 0 else 10)"
  using d rounding_exact [OF r] by (simp_all add: linear_map64_def)

lemma fold_min64:
  "fold (\<lambda>v m. if lt64 v m then v else m) (map Num64 as) (Num64 a) = Num64 (fold min as a)"
  by (induction as arbitrary: a) (simp_all add: min_def not_less)

lemma fold_max64:
  "fold (\<lambda>v m. if lt64 m v then v else m) (map Num64 as) (Num64 a) = Num64 (fold max as a)"
  by (induction as arbitrary: a) (simp_all add: max_def not_less)

lemma filter_numbers64: "filter (\<lambda>v. \<not> isnan64 v) (map Num64 xs) = map Num64 xs"
  by (induction xs) simp_all

lemma nanmin64_numbers: "xs \<noteq> [] \<Longrightarrow> nanmin64 (map Num64 xs) = Num64 (Min (set xs))"
  by (cases xs)
    (simp_all add: nanmin64_def filter_numbers64 fold_min64 Min.set_eq_fold [symmetric]
      del: set_simps)

lemma nanmax64_numbers: "xs \<noteq> [] \<Longrightarrow> nanmax64 (map Num64 xs) = Num64 (Max (set xs))"
  by (cases xs)
    (simp_all add: nanmax64_def filter_numbers64 fold_max64 Max.set_eq_fold [symmetric]
      del: set_simps)

lemma normalize_score64_linear:
  assumes "xs \<noteq> []" and "Min (set xs) \<noteq> Max (set xs)"
  shows "normalize_score64 r (map Num64 xs) f =
           map (linear_map64 r (Min (set xs)) (Max (set xs)) f) xs"
proof -
  have "\<not> list_all isnan64 (map Num64 xs)"
    using assms(1) by (cases xs) simp_all
  then show ?thesis
    using assms
    by (simp add: normalize_score64_def Let_def nanmin64_numbers nanmax64_numbers
        linear_map64_def comp_def)
qed

lemma exact_rounding_laws: "rounds_like_ieee exact_rounding"
  by (auto simp: rounds_like_ieee_def exact_rounding_def representable_def)

lemma eighths_rounding_laws: "rounds_like_ieee eighths_rounding"
proof -
  have mono: "le64 (eighths_rounding x) (eighths_rounding y)" if "x \<le> y" for x y
  proof -
    have "round (x * 8) \<le> round (y * 8)" using that by (intro round_mono) simp
    then have "(of_int (round (x * 8)) :: real) / 8 \<le> of_int (round (y * 8)) / 8"
      by simp
    with that show ?thesis by (simp add: eighths_rounding_def)
  qed
  have diff: "x = y"
    if "representable eighths_rounding x" "representable eighths_rounding y"
      "eighths_rounding (x - y) = Num64 0" for x y
  proof -
    from that(1,2) have "x = of_int (round (x * 8)) / 8" "y = of_int (round (y * 8)) / 8"
      by (auto simp: representable_def eighths_rounding_def split: if_splits)
    then have "(x - y) * 8 = of_int (round (x * 8) - round (y * 8))"
      by (simp add: algebra_simps)
    then have "round ((x - y) * 8) = round (x * 8) - round (y * 8)"
      by (simp only: round_of_int)
    with \<open>(x - y) * 8 = of_int (round (x * 8) - round (y * 8))\<close>
    have "of_int (round ((x - y) * 8)) = (x - y) * 8" by simp
    with that(3) show ?thesis
      by (auto simp: eighths_rounding_def split: if_splits)
  qed
  have "eighths_rounding 0 = Num64 0" "eighths_rounding 1 = Num64 1"
    "eighths_rounding 10 = Num64 10" "\<And>x. eighths_rounding x \<noteq> NaN64"
    by (simp_all add: eighths_rounding_def)
  with mono diff show ?thesis unfolding rounds_like_ieee_def by blast
qed

text \<open>
  Claim C8, as stated: on every non-empty numeric input whose minimum differs from its
  maximum the output lies in [0, 10] and the maximum goes to 10 (not inverse). It fails
  on the two doubles \<open>2 ^ 1023\<close> and \<open>- (2 ^ 1023)\<close>: their difference \<open>2 ^ 1024\<close>
  overflows to infinity, the maximum goes to infinity over infinity, not-a-number, and
  the output is \<open>[nan, 0.0]\<close>. Every operation on this input is exact or overflows.
\<close>

theorem normalize_score_overflows:
  "rounds_like_ieee exact_rounding \<and>
   list_all (representable exact_rounding) [2 ^ 1023, - (2 ^ 1023)] \<and>
   sub64 exact_rounding (Num64 (2 ^ 1023)) (Num64 (- (2 ^ 1023))) = PInf64 \<and>
   normalize_score64 exact_rounding [Num64 (2 ^ 1023), Num64 (- (2 ^ 1023))] False
     = [NaN64, Num64 0]"
  using exact_rounding_laws
  by (simp add: normalize_score64_def nanmin64_def nanmax64_def exact_rounding_def
      representable_def)

text \<open>
  Claim C8, amended. On every non-empty sequence of doubles whose minimum \<open>lo\<close> differs
  from its maximum \<open>hi\<close> and whose range \<open>hi - lo\<close> does not overflow, the normalizer
  applies the linear map \<open>(v - lo) / (hi - lo) * 10\<close> (its complement to 10 when
  inverse), computed in double arithmetic, to every entry; the outputs are numbers in
  [0, 10]; the map preserves the order of the values (reverses it when inverse), not
  strictly; the minimum goes to exactly 0 (10 when inverse) and the maximum to exactly 10
  (0 when inverse).
\<close>

theorem normalize_score64_linear_range:
  assumes "rounds_like_ieee r"
    and "xs \<noteq> []" and "list_all (representable r) xs"
    and "Min (set xs) \<noteq> Max (set xs)"
    and "sub64 r (Num64 (Max (set xs))) (Num64 (Min (set xs))) = Num64 d"
  shows "normalize_score64 r (map Num64 xs) f =
           map (linear_map64 r (Min (set xs)) (Max (set xs)) f) xs \<and>
         (\<forall>v \<in> set xs. \<exists>y. linear_map64 r (Min (set xs)) (Max (set xs)) f v = Num64 y \<and>
                            0 \<le> y \<and> y \<le> 10) \<and>
         (\<forall>v \<in> set xs. \<forall>w \<in> set xs. v \<le> w \<longrightarrow>
            (if f then le64 (linear_map64 r (Min (set xs)) (Max (set xs)) f w)
                            (linear_map64 r (Min (set xs)) (Max (set xs)) f v)
             else le64 (linear_map64 r (Min (set xs)) (Max (set xs)) f v)
                       (linear_map64 r (Min (set xs)) (Max (set xs)) f w))) \<and>
         linear_map64 r (Min (set xs)) (Max (set xs)) f (Min (set xs))
           = Num64 (if f then 10 else 0) \<and>
         linear_map64 r (Min (set xs)) (Max (set xs)) f (Max (set xs))
           = Num64 (if f then 0 else 10)"
proof -
  let ?lo = "Min (set xs)" and ?hi = "Max (set xs)"
  have mem: "?lo \<in> set xs" "?hi \<in> set xs"
    using assms(2) by simp_all
  then have rep: "representable r ?lo" "representable r ?hi"
    using assms(3) by (simp_all add: list_all_iff)
  have "?lo \<le> ?hi" using assms(2) by (simp add: Min_le_iff)
  with assms(4) have lt: "?lo < ?hi" by simp
  have d: "r (?hi - ?lo) = Num64 d" using assms(5) by simp
  have pos: "0 < d" using assms(1) rep lt d by (rule range_positive)
  have bounds: "\<forall>v \<in> set xs. ?lo \<le> v \<and> v \<le> ?hi" by simp
  have range: "\<forall>v \<in> set xs. \<exists>y. linear_map64 r ?lo ?hi f v = Num64 y \<and> 0 \<le> y \<and> y \<le> 10"
  proof
    fix v assume "v \<in> set xs"
    with bounds have "?lo \<le> v" "v \<le> ?hi" by simp_all
    from linear_map64_stages [OF assms(1) d pos this]
    show "\<exists>y. linear_map64 r ?lo ?hi f v = Num64 y \<and> 0 \<le> y \<and> y \<le> 10"
      by (cases f) auto
  qed
  have order: "\<forall>v \<in> set xs. \<forall>w \<in> set xs. v \<le> w \<longrightarrow>
            (if f then le64 (linear_map64 r ?lo ?hi f w) (linear_map64 r ?lo ?hi f v)
             else le64 (linear_map64 r ?lo ?hi f v) (linear_map64 r ?lo ?hi f w))"
  proof (intro ballI impI)
    fix v w assume "v \<in> set xs" "w \<in> set xs" "v \<le> w"
    with bounds have "?lo \<le> v" "v \<le> w" "w \<le> ?hi" by simp_all
    from linear_map64_mono [OF assms(1) d pos this]
    show "if f then le64 (linear_map64 r ?lo ?hi f w) (linear_map64 r ?lo ?hi f v)
             else le64 (linear_map64 r ?lo ?hi f v) (linear_map64 r ?lo ?hi f w)"
      by (cases f) simp_all
  qed
  show ?thesis
    using normalize_score64_linear [OF assms(2,4), of r f] range order
      linear_map64_ends [OF assms(1) d pos, of f]
    by (intro conjI)
qed

theorem normalize_score64_linear_range_witness:
  "rounds_like_ieee eighths_rounding \<and> [0, 1, 3 :: real] \<noteq> [] \<and>
   list_all (representable eighths_rounding) [0, 1, 3] \<and>
   Min (set [0, 1, 3 :: real]) \<noteq> Max (set [0, 1, 3 :: real]) \<and>
   sub64 eighths_rounding (Num64 (Max (set [0, 1, 3]))) (Num64 (Min (set [0, 1, 3]))) = Num64 3 \<and>
   normalize_score64 eighths_rounding [Num64 0, Num64 1, Num64 3] False
     = [Num64 0, Num64 3.75, Num64 10] \<and>
   normalize_score64 eighths_rounding [Num64 0, Num64 1, Num64 3] True
     = [Num64 10, Num64 6.25, Num64 0]"
proof -
  have rep: "list_all (representable eighths_rounding) [0, 1, 3]"
    by (simp add: representable_def eighths_rounding_def)
  have range: "sub64 eighths_rounding (Num64 (Max (set [0, 1, 3])))
      (Num64 (Min (set [0, 1, 3]))) = Num64 3"
    by (simp add: eighths_rounding_def)
  have third: "round (8 / 3 :: real) = 3" "round (30 :: real) = 30" "round (50 :: real) = 50"
    by (simp_all add: round_def)
  have lm: "map (linear_map64 eighths_rounding 0 3 False) [0, 1, 3]
              = [Num64 0, Num64 3.75, Num64 10]"
    "map (linear_map64 eighths_rounding 0 3 True) [0, 1, 3]
              = [Num64 10, Num64 6.25, Num64 0]"
    by (simp_all add: linear_map64_def eighths_rounding_def third)
  show ?thesis
    using normalize_score64_linear_range [OF eighths_rounding_laws _ rep _ range, of False]
      normalize_score64_linear_range [OF eighths_rounding_laws _ rep _ range, of True]
      eighths_rounding_laws rep range lm
    by simp
qed

subsection \<open>Sums of scores\<close>

lemma fadd_zero_right: "fadd x (Fin 0) = x"
  by (cases x) simp_all

lemma fadd_zero_left: "fadd (Fin 0) x = x"
  by (cases x) simp_all

lemma fadd_assoc: "fadd (fadd x y) z = fadd x (fadd y z)"
  by (cases x; cases y; cases z) simp_all

lemma fsum_Nil: "fsum [] = Fin 0"
  by (simp add: fsum_def)

lemma fsum_Cons: "fsum (v # vs) = fadd v (fsum vs)"
  by (simp add: fsum_def)


lemma flt_pos_not_zero: "flt (Fin 0) t \<Longrightarrow> t \<noteq> Fin 0"
  by (cases t) auto


subsection \<open>The attribute scan\<close>

text \<open>The scan returns the default when no column both matches a token and converts.\<close>

lemma attribute_value_default:
  "list_all (\<lambda>(col, v). \<not> list_ex (\<lambda>tok. contains tok (lower col)) tokens \<or> v = None) cols
     \<Longrightarrow> attribute_value tokens dflt cols = dflt"
  by (induction cols) (auto split: option.splits)

text \<open>Otherwise it returns the first column, in index order, that matches and converts.\<close>

lemma attribute_value_first:
  "list_all (\<lambda>(col, v). \<not> list_ex (\<lambda>tok. contains tok (lower col)) tokens \<or> v = None) before
     \<Longrightarrow> list_ex (\<lambda>tok. contains tok (lower col)) tokens
     \<Longrightarrow> attribute_value tokens dflt (before @ (col, Some x) # rest) = x"
  by (induction before) (auto split: option.splits)

subsection \<open>Tree mortality\<close>

lemma mortality_loop_sums:
  "mortality_loop G cell ms t w =
     (fadd t (fsum (map (\<lambda>m. intersection_area G cell (geometry m)) ms)),
      fadd w (fsum (map (\<lambda>m. fmul (mortality_magnitude m)
                                (intersection_area G cell (geometry m))) ms)))"
proof (induction ms arbitrary: t w)
  case Nil
  show ?case by (simp add: fsum_Nil fadd_zero_right)
next
  case (Cons m ms)
  show ?case
    by (simp add: Cons.IH Let_def fsum_Cons fadd_assoc mortality_magnitude_def)
qed

lemma mortality_cell_score_closed_form:
  "mortality_cell_score G ms cell =
     Inr (let overlaps = filter (\<lambda>m. intersects G (geometry m) cell) ms;
              total = fsum (map (\<lambda>m. intersection_area G cell (geometry m)) overlaps)
          in if overlaps \<noteq> [] \<and> flt (Fin 0) total then area_weighted_average G cell overlaps
             else Fin 0)"
  by (simp add: mortality_cell_score_def Let_def mortality_loop_sums fadd_zero_left
      py_truediv_def flt_pos_not_zero area_weighted_average_def)

text \<open>The guard on the total intersection area keeps the mortality scorer from raising.\<close>

lemma mortality_cell_score_never_raises: "\<exists>s. mortality_cell_score G ms cell = Inr s"
  by (simp add: mortality_cell_score_closed_form)



subsection \<open>Populated areas\<close>

lemma population_loop_sums:
  assumes "area G cell \<noteq> Fin 0"
  shows "population_loop G cell as t =
     Inr (fadd t (fsum (map (\<lambda>a. fmul (coverage_ratio G cell a) (population_density a))
             (filter (\<lambda>a. intersects G cell (geometry a)) as))))"
  using assms
proof (induction as arbitrary: t)
  case Nil
  show ?case by (simp add: fsum_Nil fadd_zero_right)
next
  case (Cons a as)
  then show ?case
    by (simp add: Let_def fsum_Cons fadd_assoc py_truediv_def coverage_ratio_def
        population_density_def)
qed

lemma population_loop_disjoint:
  "list_all (\<lambda>a. \<not> intersects G cell (geometry a)) as \<Longrightarrow> population_loop G cell as t = Inr t"
  by (induction as arbitrary: t) auto

text \<open>The division by the area of the cell is not guarded: a cell of area 0 that
  intersects a populated area stops the loop with \<open>ZeroDivisionError\<close>.\<close>

lemma population_loop_zero_area:
  "area G cell = Fin 0 \<Longrightarrow> list_ex (\<lambda>a. intersects G cell (geometry a)) as
     \<Longrightarrow> population_loop G cell as t = Inl ZeroDivisionError"
  by (induction as arbitrary: t) (auto simp: py_truediv_def)

text \<open>
  Where the area of the cell is not zero, the populated-areas raw score is the sum, over
  the populated areas that intersect the cell, of the ratio of the intersection area to
  the area of the cell times the density of the area: contributions accumulate. A cell
  that intersects no populated area scores 0, and the density of an area is 10 when none
  of its columns both matches a token and converts to a number.
\<close>

lemma population_score_accumulates:
  "(area G cell \<noteq> Fin 0 \<longrightarrow>
      population_cell_score G as cell = Inr (accumulated_exposure G cell as)) \<and>
   (list_all (\<lambda>a. \<not> intersects G cell (geometry a)) as \<longrightarrow>
      population_cell_score G as cell = Inr (Fin 0)) \<and>
   (list_all (\<lambda>(col, v). \<not> list_ex (\<lambda>tok. contains tok (lower col))
                                 [''pop'', ''dens'', ''people''] \<or> v = None) (columns a) \<longrightarrow>
      population_density a = Fin 10)"
proof (intro conjI impI)
  assume "area G cell \<noteq> Fin 0"
  then show "population_cell_score G as cell = Inr (accumulated_exposure G cell as)"
    by (simp add: population_cell_score_def population_loop_sums accumulated_exposure_def
        fadd_zero_left)
next
  assume "list_all (\<lambda>a. \<not> intersects G cell (geometry a)) as"
  then show "population_cell_score G as cell = Inr (Fin 0)"
    by (simp add: population_cell_score_def population_loop_disjoint)
next
  assume "list_all (\<lambda>(col, v). \<not> list_ex (\<lambda>tok. contains tok (lower col))
                                 [''pop'', ''dens'', ''people''] \<or> v = None) (columns a)"
  then show "population_density a = Fin 10"
    unfolding population_density_def by (rule attribute_value_default)
qed

lemma population_score_accumulates_example:
  "area strips (Strip 0 10) \<noteq> Fin 0 \<and>
   map (coverage_ratio strips (Strip 0 10)) population_example = [Fin 1, Fin 0.5, Fin 0] \<and>
   map population_density population_example = [Fin 6, Fin 4, Fin 10] \<and>
   map (\<lambda>a. intersects strips (Strip 0 10) (geometry a)) population_example
     = [True, True, False] \<and>
   population_cell_score strips population_example (Strip 0 10) = Inr (Fin 8) \<and>
   population_cell_score strips population_example (Strip 50 60) = Inr (Fin 0)"
  using population_score_accumulates [of strips "Strip 0 10" population_example
      "\<lparr>geometry = Strip 30 40, columns = []\<rparr>"]
    population_score_accumulates [of strips "Strip 50 60" population_example
      "\<lparr>geometry = Strip 30 40, columns = []\<rparr>"]
  by (simp add: strips_def population_example_def accumulated_exposure_def fsum_def
      coverage_ratio_def population_density_def lower_def lower_char_def)

text \<open>
  Claim C3. The mortality scorer never divides by a zero total intersection area
  (\<open>mortality_cell_score_never_raises\<close>), but the populated-areas scorer does divide by a
  zero cell area: for the degenerate cell \<open>Strip 5 5\<close>, of area 0, inside a populated area,
  the score of the cell and the scorer's loop over the grid both end in
  \<open>ZeroDivisionError\<close>.
\<close>

theorem population_zero_area_cell_raises:
  "area strips (Strip 5 5) = Fin 0 \<and>
   population_cell_score strips population_example (Strip 5 5) = Inl ZeroDivisionError \<and>
   calculate_population_score strips [Strip 0 10, Strip 5 5] population_example
     = Inl ZeroDivisionError"
proof -
  have a: "area strips (Strip 5 5) = Fin 0"
    by (simp add: strips_def)
  have "list_ex (\<lambda>a. intersects strips (Strip 5 5) (geometry a)) population_example"
    by (simp add: strips_def population_example_def)
  with a have c: "population_cell_score strips population_example (Strip 5 5)
      = Inl ZeroDivisionError"
    unfolding population_cell_score_def by (rule population_loop_zero_area)
  have "area strips (Strip 0 10) \<noteq> Fin 0"
    by (simp add: strips_def)
  then have "\<exists>s. population_cell_score strips population_example (Strip 0 10) = Inr s"
    by (simp add: population_cell_score_def population_loop_sums)
  with c have "calculate_population_score strips [Strip 0 10, Strip 5 5] population_example
      = Inl ZeroDivisionError"
    by (auto simp: calculate_population_score_def)
  with a c show ?thesis by simp
qed

text \<open>
  Claim C6. The populated-areas raw score of every grid cell is the accumulated sum of
  ratio times density. The code misses it for a cell of area 0, by the defect of claim C3:
  the degenerate cell \<open>Strip 5 5\<close> intersects the first two populated areas of the
  scenario, and instead of a score the cell gets \<open>ZeroDivisionError\<close>; the same grid
  without that cell is scored, with it the whole column is lost.
\<close>

theorem population_score_lost_with_zero_area_cell:
  "map (\<lambda>a. intersects strips (Strip 5 5) (geometry a)) population_example
     = [True, True, False] \<and>
   isl (population_cell_score strips population_example (Strip 5 5)) \<and>
   calculate_population_score strips [Strip 0 10] population_example
     = Inr ([Fin 8], [Fin 5]) \<and>
   calculate_population_score strips [Strip 5 5, Strip 0 10] population_example
     = Inl ZeroDivisionError"
proof -
  have i: "map (\<lambda>a. intersects strips (Strip 5 5) (geometry a)) population_example
      = [True, True, False]"
    by (simp add: strips_def population_example_def)
  have "area strips (Strip 5 5) = Fin 0"
    by (simp add: strips_def)
  moreover have "list_ex (\<lambda>a. intersects strips (Strip 5 5) (geometry a)) population_example"
    by (simp add: strips_def population_example_def)
  ultimately have c: "population_cell_score strips population_example (Strip 5 5)
      = Inl ZeroDivisionError"
    unfolding population_cell_score_def by (rule population_loop_zero_area)
  have "population_cell_score strips population_example (Strip 0 10) = Inr (Fin 8)"
    by (simp add: population_cell_score_def population_example_def py_truediv_def
        strips_def lower_def lower_char_def)
  moreover have "normalize_score [Fin 8] False = [Fin 5]"
    by (simp add: normalize_score_def nanmin_def nanmax_def)
  ultimately have one: "calculate_population_score strips [Strip 0 10] population_example
      = Inr ([Fin 8], [Fin 5])"
    by (simp add: calculate_population_score_def)
  have two: "calculate_population_score strips [Strip 5 5, Strip 0 10] population_example
      = Inl ZeroDivisionError"
    by (simp add: calculate_population_score_def c)
  from i c one two show ?thesis by simp
qed

subsection \<open>Proximity scores\<close>

lemma pymax_cases: "pymax (Fin a) c = Fin b \<Longrightarrow> a \<le> b \<and> (b = a \<or> c = Fin b)"
  by (cases c) (auto simp: pymax_def split: if_splits)

lemma pymax_Fin: "\<exists>b. pymax (Fin a) c = Fin b"
  by (cases c) (auto simp: pymax_def)

lemma fold_pymax_Fin: "\<exists>r. fold (\<lambda>c acc. pymax acc c) cs (Fin a) = Fin r"
proof (induction cs arbitrary: a)
  case Nil
  show ?case by simp
next
  case (Cons c cs)
  obtain b where "pymax (Fin a) c = Fin b" using pymax_Fin by blast
  with Cons.IH [of b] show ?case by simp
qed

lemma fold_pymax_ge: "fold (\<lambda>c acc. pymax acc c) cs (Fin a) = Fin r \<Longrightarrow> a \<le> r"
proof (induction cs arbitrary: a)
  case Nil
  then show ?case by simp
next
  case (Cons c cs)
  obtain b where b: "pymax (Fin a) c = Fin b" using pymax_Fin by blast
  with Cons.prems have "fold (\<lambda>c acc. pymax acc c) cs (Fin b) = Fin r" by simp
  then have "b \<le> r" by (rule Cons.IH)
  moreover have "a \<le> b" using pymax_cases [OF b] by simp
  ultimately show ?case by simp
qed

lemma fold_pymax_is_maximum:
  "is_maximum (fold (\<lambda>c acc. pymax acc c) cs (Fin a)) (Fin a # cs)"
proof (induction cs arbitrary: a)
  case Nil
  show ?case by (simp add: is_maximum_def)
next
  case (Cons c cs)
  obtain b where b: "pymax (Fin a) c = Fin b" using pymax_Fin by blast
  obtain r where r: "fold (\<lambda>c acc. pymax acc c) cs (Fin b) = Fin r"
    using fold_pymax_Fin by blast
  have ih: "is_maximum (Fin r) (Fin b # cs)"
    using Cons.IH [of b] r by simp
  have "a \<le> b" "b = a \<or> c = Fin b" using pymax_cases [OF b] by simp_all
  moreover have "b \<le> r" using ih by (simp add: is_maximum_def)
  moreover have "\<not> flt (Fin a) c \<or> c = Fin b"
    using b by (auto simp: pymax_def split: if_splits)
  ultimately have "\<not> flt (Fin r) (Fin a)" "\<not> flt (Fin r) c" "Fin r \<in> set (Fin a # c # cs)"
    using ih by (cases c; auto simp: is_maximum_def)+
  then show ?case using ih b r by (simp add: is_maximum_def)
qed

lemma fold_pymax_map:
  "fold (\<lambda>c acc. pymax acc c) (map g xs) m = fold (\<lambda>x acc. pymax acc (g x)) xs m"
  by (induction xs arbitrary: m) simp_all

text \<open>The three scorers compute the decay of the contract, each with its own radii.\<close>

lemma community_feature_score_decay:
  "community_feature_score G cell f =
     decay_contribution 100 300
       (attribute_value [''import'', ''prior'', ''weight''] (Fin 10) (columns f))
       (touches G cell (geometry f)) (distance G cell (geometry f))"
  by (simp add: community_feature_score_def decay_contribution_def touches_def Let_def)

lemma egress_route_score_decay:
  "egress_route_score G cell f =
     decay_contribution 50 150
       (attribute_value [''prior'', ''import'', ''class''] (Fin 10) (columns f))
       (touches G cell (geometry f)) (distance G cell (geometry f))"
  by (simp add: egress_route_score_def decay_contribution_def touches_def Let_def)

lemma utility_feature_score_decay:
  "utility_feature_score G cell base f =
     decay_contribution 30 100 (Fin base)
       (touches G cell (geometry f)) (distance G cell (geometry f))"
  by (simp add: utility_feature_score_def decay_contribution_def touches_def Let_def)

lemma community_cell_score_fold:
  "community_cell_score G fs cell =
     fold (\<lambda>c acc. pymax acc c) (community_contributions G cell fs) (Fin 0)"
  by (simp only: community_cell_score_def community_contributions_def fold_pymax_map
      community_feature_score_decay)

lemma egress_cell_score_fold:
  "egress_cell_score G fs cell =
     fold (\<lambda>c acc. pymax acc c) (egress_contributions G cell fs) (Fin 0)"
  by (simp only: egress_cell_score_def egress_contributions_def fold_pymax_map
      egress_route_score_decay)

lemma utility_contributions_scores:
  "utility_contributions G cell base fs = map (utility_feature_score G cell base) fs"
  by (simp add: utility_contributions_def utility_feature_score_decay)

lemma utility_layer_fold:
  "fold (\<lambda>(utility_layer, base_priority) max_score.
             fold (\<lambda>utility max_score.
                     pymax max_score (utility_feature_score G cell base_priority utility))
               utility_layer max_score) layers m
        = fold (\<lambda>c acc. pymax acc c)
            (concat (map (\<lambda>(fs, base). utility_contributions G cell base fs) layers)) m"
proof (induction layers arbitrary: m)
  case Nil
  show ?case by simp
next
  case (Cons l layers)
  obtain fs base where l: "l = (fs, base)" by (cases l)
  show ?case
    by (simp add: l Cons.IH utility_contributions_scores fold_pymax_map)
qed

lemma utility_cell_score_fold:
  "utility_cell_score G layers cell =
     fold (\<lambda>c acc. pymax acc c)
       (concat (map (\<lambda>(fs, base). utility_contributions G cell base fs) layers)) (Fin 0)"
  by (simp only: utility_cell_score_def utility_layer_fold)

text \<open>
  Claim C5, as stated: the raw score is the maximum of the per-feature contributions. It
  fails for a community feature inside the cell with importance -5: the only contribution
  is -5 and the score is 0.
\<close>

theorem community_score_not_maximum_of_contributions:
  "community_contributions strips (Strip 0 10) [negative_feature] = [Fin (- 5)] \<and>
   community_cell_score strips [negative_feature] (Strip 0 10) = Fin 0 \<and>
   \<not> is_maximum (community_cell_score strips [negative_feature] (Strip 0 10))
        (community_contributions strips (Strip 0 10) [negative_feature])"
  by (simp add: community_cell_score_fold community_contributions_def negative_feature_def
      decay_contribution_def touches_def strips_def lower_def lower_char_def pymax_def
      is_maximum_def)

text \<open>
  Claim C5, amended. Each of the community, egress and utility raw scores is the maximum of
  0 and the per-feature contributions of its layers: the decay of the contract with radii
  (100, 300) and the attribute magnitude, default 10, for community features; (50, 150)
  and the attribute magnitude, default 10, for egress routes; (30, 100) and the base
  priorities 10, 8, 6, 10, 7 for the transmission, sub-transmission, distribution,
  substation and pole-top layers, taken jointly. Contributions do not accumulate.
\<close>

theorem proximity_scores_maximum_with_zero:
  "is_maximum (community_cell_score G cs cell) (Fin 0 # community_contributions G cell cs) \<and>
   is_maximum (egress_cell_score G es cell) (Fin 0 # egress_contributions G cell es) \<and>
   is_maximum (utility_cell_score G (utility_layers t st dc ss pt) cell)
     (Fin 0 # utility_contributions G cell 10 t @ utility_contributions G cell 8 st @
        utility_contributions G cell 6 dc @ utility_contributions G cell 10 ss @
        utility_contributions G cell 7 pt)"
proof (intro conjI)
  show "is_maximum (community_cell_score G cs cell) (Fin 0 # community_contributions G cell cs)"
    unfolding community_cell_score_fold by (rule fold_pymax_is_maximum)
  show "is_maximum (egress_cell_score G es cell) (Fin 0 # egress_contributions G cell es)"
    unfolding egress_cell_score_fold by (rule fold_pymax_is_maximum)
  have "concat (map (\<lambda>(fs, base). utility_contributions G cell base fs)
          (utility_layers t st dc ss pt))
        = utility_contributions G cell 10 t @ utility_contributions G cell 8 st @
          utility_contributions G cell 6 dc @ utility_contributions G cell 10 ss @
          utility_contributions G cell 7 pt"
    by (simp add: utility_layers_def)
  then show "is_maximum (utility_cell_score G (utility_layers t st dc ss pt) cell)
     (Fin 0 # utility_contributions G cell 10 t @ utility_contributions G cell 8 st @
        utility_contributions G cell 6 dc @ utility_contributions G cell 10 ss @
        utility_contributions G cell 7 pt)"
    using fold_pymax_is_maximum
      [of "concat (map (\<lambda>(fs, base). utility_contributions G cell base fs)
             (utility_layers t st dc ss pt))" 0]
    by (simp only: utility_cell_score_fold)
qed

theorem proximity_scores_maximum_with_zero_witness:
  "community_contributions strips (Strip 0 10) community_example = [Fin 2.5, Fin 5] \<and>
   community_cell_score strips community_example (Strip 0 10) = Fin 5 \<and>
   egress_contributions strips (Strip 0 10) egress_example = [Fin 5] \<and>
   egress_cell_score strips egress_example (Strip 0 10) = Fin 5 \<and>
   utility_contributions strips (Strip 0 10) 6 [\<lparr>geometry = Strip 25 40, columns = []\<rparr>]
     = [Fin 3] \<and>
   utility_contributions strips (Strip 0 10) 7 [\<lparr>geometry = Strip 75 76, columns = []\<rparr>]
     = [Fin 1.75] \<and>
   utility_cell_score strips utility_example (Strip 0 10) = Fin 3"
proof -
  note ev = decay_contribution_def touches_def strips_def lower_def lower_char_def
  have c: "community_contributions strips (Strip 0 10) community_example = [Fin 2.5, Fin 5]"
    by (simp add: community_contributions_def community_example_def ev)
  have e: "egress_contributions strips (Strip 0 10) egress_example = [Fin 5]"
    by (simp add: egress_contributions_def egress_example_def ev)
  have u: "utility_contributions strips (Strip 0 10) 6
             [\<lparr>geometry = Strip 25 40, columns = []\<rparr>] = [Fin 3]"
    "utility_contributions strips (Strip 0 10) 7
             [\<lparr>geometry = Strip 75 76, columns = []\<rparr>] = [Fin 1.75]"
    "utility_contributions strips (Strip 0 10) b [] = []" for b
    by (simp_all add: utility_contributions_def ev)
  have m: "is_maximum (community_cell_score strips community_example (Strip 0 10))
             [Fin 0, Fin 2.5, Fin 5] \<and>
           is_maximum (egress_cell_score strips egress_example (Strip 0 10)) [Fin 0, Fin 5] \<and>
           is_maximum (utility_cell_score strips utility_example (Strip 0 10))
             [Fin 0, Fin 3, Fin 1.75]"
    using proximity_scores_maximum_with_zero [of strips community_example "Strip 0 10"
        egress_example "[]" "[]" "[\<lparr>geometry = Strip 25 40, columns = []\<rparr>]" "[]"
        "[\<lparr>geometry = Strip 75 76, columns = []\<rparr>]"]
    by (simp add: c e u utility_example_def)
  from m have "community_cell_score strips community_example (Strip 0 10) = Fin 5"
    by (auto simp: is_maximum_def)
  moreover from m have "egress_cell_score strips egress_example (Strip 0 10) = Fin 5"
    by (auto simp: is_maximum_def)
  moreover from m have "utility_cell_score strips utility_example (Strip 0 10) = Fin 3"
    by (auto simp: is_maximum_def)
  ultimately show ?thesis using c e u by simp
qed

text \<open>
  Claim C10. The community, egress and utility raw scores of a cell are numbers that are
  never negative, whatever the magnitudes of the features, negative and \<open>NaN\<close> ones
  included: the running maximum starts at 0 and \<open>max\<close> never lowers it.
\<close>

theorem proximity_scores_nonnegative:
  "(\<exists>r. community_cell_score G cs cell = Fin r \<and> 0 \<le> r) \<and>
   (\<exists>r. egress_cell_score G es cell = Fin r \<and> 0 \<le> r) \<and>
   (\<exists>r. utility_cell_score G layers cell = Fin r \<and> 0 \<le> r)"
  unfolding community_cell_score_fold egress_cell_score_fold utility_cell_score_fold
  using fold_pymax_Fin fold_pymax_ge by metis

theorem proximity_scores_nonnegative_witness:
  "egress_contributions strips (Strip 0 10) negative_routes = [Fin (- 2.4), NaN] \<and>
   egress_cell_score strips negative_routes (Strip 0 10) = Fin 0"
  using proximity_scores_nonnegative [of strips "[]" "Strip 0 10" negative_routes "[]"]
  by (simp add: egress_cell_score_fold egress_contributions_def negative_routes_def
      decay_contribution_def touches_def strips_def lower_def lower_char_def pymax_def)

subsection \<open>Dense ranks\<close>

text \<open>The number of values of a finite set above a given value: strictly decreasing on
  the set, and onto the numbers below its cardinality.\<close>

lemma above_strict:
  assumes "finite S" "a \<in> S" "b < (a::real)"
  shows "card {c \<in> S. a < c} < card {c \<in> S. b < c}"
proof (rule psubset_card_mono)
  show "finite {c \<in> S. b < c}" using assms(1) by simp
  show "{c \<in> S. a < c} \<subset> {c \<in> S. b < c}" using assms(2,3) by auto
qed

lemma above_image:
  assumes "finite S"
  shows "(\<lambda>a::real. card {c \<in> S. a < c}) ` S = {..<card S}"
proof (rule card_subset_eq)
  show "finite {..<card S}" by simp
  show "(\<lambda>a. card {c \<in> S. a < c}) ` S \<subseteq> {..<card S}"
  proof
    fix n assume "n \<in> (\<lambda>a. card {c \<in> S. a < c}) ` S"
    then obtain a where a: "a \<in> S" "n = card {c \<in> S. a < c}" by blast
    have "{c \<in> S. a < c} \<subset> S" using a(1) by auto
    then have "n < card S" unfolding a(2) using assms by (intro psubset_card_mono)
    then show "n \<in> {..<card S}" by simp
  qed
  have "inj_on (\<lambda>a. card {c \<in> S. a < c}) S"
  proof (rule inj_onI)
    fix a b assume ab: "a \<in> S" "b \<in> S" "card {c \<in> S. a < c} = card {c \<in> S. b < c}"
    show "a = b"
    proof (rule ccontr)
      assume "a \<noteq> b"
      then consider "a < b" | "b < a" by linarith
      then show False
        using above_strict [OF assms ab(1), of b] above_strict [OF assms ab(2), of a] ab(3)
        by cases simp_all
    qed
  qed
  then show "card ((\<lambda>a. card {c \<in> S. a < c}) ` S) = card {..<card S}"
    by (simp add: card_image)
qed

lemma numeric_indexed_set:
  "(j, a) \<in> set (numeric_indexed k vs) \<longleftrightarrow> (k \<le> j \<and> j - k < length vs \<and> vs ! (j - k) = Fin a)"
proof (induction k vs rule: numeric_indexed.induct)
  case (1 k)
  show ?case by simp
next
  case (2 k vs)
  show ?case
  proof (cases "k < j")
    case True
    then have "j - k = Suc (j - Suc k)" by simp
    with True show ?thesis by (simp add: 2)
  next
    case False
    then have "k \<le> j \<Longrightarrow> j - k = 0" by simp
    with False show ?thesis by (auto simp: 2)
  qed
next
  case (3 k b vs)
  show ?case
  proof (cases "k < j")
    case True
    then have "j - k = Suc (j - Suc k)" by simp
    with True show ?thesis by (simp add: 3)
  next
    case False
    then have "k \<le> j \<Longrightarrow> j = k" by simp
    with False show ?thesis by (auto simp: 3)
  qed
qed

lemma numeric_indexed_values: "snd ` set (numeric_indexed k vs) = set (numeric vs)"
  by (induction k vs rule: numeric_indexed.induct) simp_all

lemma dense_walk_keys: "fst ` set (dense_walk xs r) = fst ` set xs"
  by (induction xs r rule: dense_walk.induct) auto

text \<open>Walking entries sorted by descending value, each position gets the first rank plus
  the number of distinct values above its own.\<close>

lemma dense_walk_rank:
  assumes "sorted_wrt (\<lambda>p q. snd q \<le> snd p) xs"
    and "\<forall>p \<in> set xs. \<forall>q \<in> set xs. fst p = fst q \<longrightarrow> snd p = snd q"
    and "(i, a) \<in> set xs"
  shows "map_of (dense_walk xs r) i = Some (r + card {c \<in> snd ` set xs. a < c})"
  using assms
proof (induction xs r rule: dense_walk.induct)
  case (1 r)
  then show ?case by simp
next
  case (2 j b r)
  then have "i = j" "a = b" by simp_all
  moreover have "{c \<in> snd ` set [(j, b)]. b < c} = {}" by auto
  ultimately show ?case by simp
next
  case (3 j b k c rest r)
  let ?ys = "(k, c) # rest"
  let ?S = "snd ` set ?ys"
  have sub: "set ?ys \<subseteq> set ((j, b) # ?ys)" by (rule set_subset_Cons)
  from "3.prems"(1)
  have both: "(\<forall>q \<in> set ?ys. snd q \<le> snd (j, b)) \<and> sorted_wrt (\<lambda>p q. snd q \<le> snd p) ?ys"
    unfolding sorted_wrt.simps(2) [of _ "(j, b)" ?ys] .
  then have srt: "sorted_wrt (\<lambda>p q. snd q \<le> snd p) ?ys" by (rule conjunct2)
  from both have hd: "\<forall>q \<in> set ?ys. snd q \<le> b"
    unfolding snd_conv by (rule conjunct1)
  have fn: "\<forall>p \<in> set ?ys. \<forall>q \<in> set ?ys. fst p = fst q \<longrightarrow> snd p = snd q"
    using "3.prems"(2) sub by blast
  have top: "\<forall>v \<in> ?S. v \<le> b" using hd by blast
  have cS: "c \<in> ?S" by simp
  have all: "snd ` set ((j, b) # ?ys) = insert b ?S" by simp
  have step: "map_of (dense_walk ((j, b) # ?ys) r) z =
      (if z = j then Some r else map_of (dense_walk ?ys (if c = b then r else Suc r)) z)" for z
    by simp
  show ?case
  proof (cases "i = j")
    case True
    have "(j, b) \<in> set ((j, b) # ?ys)" by simp
    with "3.prems"(2,3) True have "a = b" by fastforce
    then have "{v \<in> insert b ?S. a < v} = {}"
      using top by auto
    with True show ?thesis by (simp only: all step if_True card.empty add_0_right simp_thms)
  next
    case False
    with "3.prems"(3) have mem: "(i, a) \<in> set ?ys" by simp
    have ih: "map_of (dense_walk ?ys (if c = b then r else Suc r)) i
            = Some ((if c = b then r else Suc r) + card {v \<in> ?S. a < v})"
      using srt fn mem by (rule "3.IH")
    have "r + card {v \<in> insert b ?S. a < v}
                 = (if c = b then r else Suc r) + card {v \<in> ?S. a < v}"
    proof (cases "c = b")
      case True
      then have "insert b ?S = ?S" using cS by blast
      with True show ?thesis by (simp only: if_True simp_thms)
    next
      case cb: False
      have "c \<le> b" using top cS by blast
      with cb have "c < b" by simp
      have "a \<le> c" using srt mem by (cases "(i, a) = (k, c)") auto
      have "b \<notin> ?S" using top \<open>c < b\<close> srt by fastforce
      have eq: "{v \<in> insert b ?S. a < v} = insert b {v \<in> ?S. a < v}"
        using \<open>a \<le> c\<close> \<open>c < b\<close> by auto
      have "finite {v \<in> ?S. a < v}" by simp
      moreover have "b \<notin> {v \<in> ?S. a < v}" using \<open>b \<notin> ?S\<close> by simp
      ultimately have "card (insert b {v \<in> ?S. a < v}) = Suc (card {v \<in> ?S. a < v})"
        by (rule card_insert_disjoint)
      then have "card {v \<in> insert b ?S. a < v} = Suc (card {v \<in> ?S. a < v})"
        by (simp only: eq)
      with cb show ?thesis by simp
    qed
    with ih False show ?thesis
      by (simp only: all step if_False)
  qed
qed

lemma sorted_order:
  "sorted_wrt (\<lambda>p q. snd q \<le> snd p) (sort_key (\<lambda>(i, a). - a) (xs :: (nat \<times> real) list))"
proof -
  have "sorted (map (\<lambda>(i, a). - a) (sort_key (\<lambda>(i, a). - a) xs))"
    by (rule sorted_sort_key)
  then show ?thesis
    by (simp add: sorted_map case_prod_unfold)
qed

lemma rank_dense_descending_length: "length (rank_dense_descending vs) = length vs"
  by (simp add: rank_dense_descending_def Let_def)

lemma rank_dense_descending_nth:
  assumes "i < length vs"
  shows "rank_dense_descending vs ! i =
           (case vs ! i of
              NaN \<Rightarrow> None
            | Fin a \<Rightarrow> Some (1 + card {c \<in> set (numeric vs). a < c}))"
proof -
  let ?order = "sort_key (\<lambda>(i, a). - a) (numeric_indexed 0 vs)"
  have nth: "rank_dense_descending vs ! i = map_of (dense_walk ?order 1) i"
    using assms by (simp add: rank_dense_descending_def Let_def)
  have set_order: "set ?order = set (numeric_indexed 0 vs)" by simp
  have fn: "\<forall>p \<in> set ?order. \<forall>q \<in> set ?order. fst p = fst q \<longrightarrow> snd p = snd q"
  proof (intro ballI impI)
    fix p q assume pq: "p \<in> set ?order" "q \<in> set ?order" "fst p = fst q"
    obtain j a b where "p = (j, a)" "q = (j, b)"
      using pq(3) by (cases p; cases q) simp
    with pq(1,2) have "(j, a) \<in> set (numeric_indexed 0 vs)"
      "(j, b) \<in> set (numeric_indexed 0 vs)"
      by (simp_all only: set_order)
    then have "a = b" by (simp add: numeric_indexed_set)
    then show "snd p = snd q" using \<open>p = (j, a)\<close> \<open>q = (j, b)\<close> by simp
  qed
  show ?thesis
  proof (cases "vs ! i")
    case NaN
    have "i \<notin> fst ` set ?order"
    proof
      assume "i \<in> fst ` set ?order"
      then obtain a where "(i, a) \<in> set (numeric_indexed 0 vs)"
        unfolding set_order by force
      with NaN show False by (simp add: numeric_indexed_set)
    qed
    then have "map_of (dense_walk ?order 1) i = None"
      by (simp only: map_of_eq_None_iff dense_walk_keys not_False_eq_True)
    with NaN nth show ?thesis by simp
  next
    case (Fin a)
    with assms have "(i, a) \<in> set ?order"
      by (simp only: set_order numeric_indexed_set) simp
    with sorted_order fn
    have "map_of (dense_walk ?order 1) i = Some (1 + card {c \<in> snd ` set ?order. a < c})"
      by (rule dense_walk_rank)
    with Fin nth show ?thesis
      by (simp only: set_order numeric_indexed_values pyfloat.case)
  qed
qed

lemma astype_int_Some: "astype_int (map Some ns) = Inr (map int ns)"
  by (induction ns) simp_all

lemma astype_int_Inr: "astype_int rs = Inr ks \<Longrightarrow> \<exists>ns. rs = map Some ns \<and> ks = map int ns"
proof (induction rs arbitrary: ks rule: astype_int.induct)
  case 1
  then show ?case by simp
next
  case (2 rs)
  then show ?case by simp
next
  case (3 r rs)
  from "3.prems" obtain ks' where ks': "astype_int rs = Inr ks'" "ks = int r # ks'"
    by (auto split: sum.splits)
  from "3.IH" [OF ks'(1)] obtain ns where "rs = map Some ns" "ks' = map int ns" by blast
  with ks'(2) have "Some r # rs = map Some (r # ns) \<and> ks = map int (r # ns)" by simp
  then show ?case by (rule exI)
qed

lemma ranks_of_numbers:
  "rank_dense_descending (map Fin xs) = map (\<lambda>a. Some (1 + card {c \<in> set xs. a < c})) xs"
  by (rule nth_equalityI)
    (simp_all add: rank_dense_descending_length rank_dense_descending_nth numeric_Fin)

lemma no_rank_for_nan:
  assumes "rank_dense_descending vs = map Some ns"
  shows "vs = map Fin (numeric vs)"
proof -
  have "\<forall>i < length vs. vs ! i \<noteq> NaN"
  proof (intro allI impI)
    fix i assume i: "i < length vs"
    show "vs ! i \<noteq> NaN"
    proof
      assume "vs ! i = NaN"
      with i have "rank_dense_descending vs ! i = None"
        by (simp add: rank_dense_descending_nth)
      moreover have "i < length ns"
        using i assms rank_dense_descending_length [of vs] by simp
      ultimately show False using assms by simp
    qed
  qed
  then have "NaN \<notin> set vs" by (auto simp: in_set_conv_nth)
  then show ?thesis
    by (induction vs rule: numeric.induct) simp_all
qed

lemma ranks_astype_int:
  "astype_int (rank_dense_descending vs) = Inr ks \<longleftrightarrow>
     (\<exists>xs. vs = map Fin xs \<and> ks = map (\<lambda>a. int (1 + card {c \<in> set xs. a < c})) xs)"
proof
  assume "astype_int (rank_dense_descending vs) = Inr ks"
  then obtain ns where ns: "rank_dense_descending vs = map Some ns" "ks = map int ns"
    using astype_int_Inr by blast
  define xs where "xs = numeric vs"
  have vs: "vs = map Fin xs" unfolding xs_def using ns(1) by (rule no_rank_for_nan)
  have "map Some ns = map Some (map (\<lambda>a. 1 + card {c \<in> set xs. a < c}) xs)"
    using ns(1) ranks_of_numbers [of xs] vs by (simp add: comp_def)
  then have "ns = map (\<lambda>a. 1 + card {c \<in> set xs. a < c}) xs"
    by (simp only: inj_map_eq_map [OF inj_Some])
  with ns(2) have "ks = map (\<lambda>a. int (1 + card {c \<in> set xs. a < c})) xs"
    by (simp add: comp_def)
  with vs show "\<exists>xs. vs = map Fin xs \<and> ks = map (\<lambda>a. int (1 + card {c \<in> set xs. a < c})) xs"
    by blast
next
  assume "\<exists>xs. vs = map Fin xs \<and> ks = map (\<lambda>a. int (1 + card {c \<in> set xs. a < c})) xs"
  then obtain xs where xs: "vs = map Fin xs"
    "ks = map (\<lambda>a. int (1 + card {c \<in> set xs. a < c})) xs" by blast
  have "rank_dense_descending vs = map Some (map (\<lambda>a. 1 + card {c \<in> set xs. a < c}) xs)"
    unfolding xs(1) ranks_of_numbers by (simp add: comp_def)
  then show "astype_int (rank_dense_descending vs) = Inr ks"
    unfolding xs(2) by (simp only: astype_int_Some) (simp add: comp_def)
qed

subsection \<open>The aggregator\<close>

lemma normalize_score_length: "length (normalize_score vs f) = length vs"
  by (simp add: normalize_score_def Let_def)

text \<open>The table that the aggregator returns, column by column.\<close>

lemma calculate_overall_priority_Inr:
  "calculate_overall_priority w grid = Inr res \<longleftrightarrow>
     (\<exists>xs. normalize_score (map (weighted_sum w) grid) False = map Fin xs \<and>
           res = map (\<lambda>i. norm_row.extend (grid ! i)
                             \<lparr>overall_priority = weighted_sum w (grid ! i),
                              priority_normalized = Fin (xs ! i),
                              priority_class = classify (Fin (xs ! i)),
                              priority_rank = int (1 + card {c \<in> set xs. xs ! i < c})\<rparr>)
                  [0..<length grid])"
proof -
  let ?ns = "normalize_score (map (weighted_sum w) grid) False"
  have len: "length ?ns = length grid" by (simp add: normalize_score_length)
  show ?thesis
  proof
    assume run: "calculate_overall_priority w grid = Inr res"
    then obtain ks where ks: "astype_int (rank_dense_descending ?ns) = Inr ks"
      by (auto simp: calculate_overall_priority_def Let_def split: sum.splits)
    then obtain xs where xs: "?ns = map Fin xs"
      "ks = map (\<lambda>a. int (1 + card {c \<in> set xs. a < c})) xs"
      unfolding ranks_astype_int by blast
    have lx: "length xs = length grid" using len xs(1) by simp
    have "res = map (\<lambda>i. norm_row.extend (grid ! i)
                             \<lparr>overall_priority = map (weighted_sum w) grid ! i,
                              priority_normalized = ?ns ! i,
                              priority_class = map classify ?ns ! i,
                              priority_rank = ks ! i\<rparr>)
                  [0..<length grid]"
      using run ks by (simp add: calculate_overall_priority_def Let_def)
    also have "\<dots> = map (\<lambda>i. norm_row.extend (grid ! i)
                             \<lparr>overall_priority = weighted_sum w (grid ! i),
                              priority_normalized = Fin (xs ! i),
                              priority_class = classify (Fin (xs ! i)),
                              priority_rank = int (1 + card {c \<in> set xs. xs ! i < c})\<rparr>)
                  [0..<length grid]"
      unfolding xs using lx by (intro map_cong) simp_all
    finally show "\<exists>xs. ?ns = map Fin xs \<and>
           res = map (\<lambda>i. norm_row.extend (grid ! i)
                             \<lparr>overall_priority = weighted_sum w (grid ! i),
                              priority_normalized = Fin (xs ! i),
                              priority_class = classify (Fin (xs ! i)),
                              priority_rank = int (1 + card {c \<in> set xs. xs ! i < c})\<rparr>)
                  [0..<length grid]"
      using xs(1) by blast
  next
    assume "\<exists>xs. ?ns = map Fin xs \<and>
           res = map (\<lambda>i. norm_row.extend (grid ! i)
                             \<lparr>overall_priority = weighted_sum w (grid ! i),
                              priority_normalized = Fin (xs ! i),
                              priority_class = classify (Fin (xs ! i)),
                              priority_rank = int (1 + card {c \<in> set xs. xs ! i < c})\<rparr>)
                  [0..<length grid]"
    then obtain xs where xs: "?ns = map Fin xs"
      and res: "res = map (\<lambda>i. norm_row.extend (grid ! i)
                             \<lparr>overall_priority = weighted_sum w (grid ! i),
                              priority_normalized = Fin (xs ! i),
                              priority_class = classify (Fin (xs ! i)),
                              priority_rank = int (1 + card {c \<in> set xs. xs ! i < c})\<rparr>)
                  [0..<length grid]"
      by blast
    have lx: "length xs = length grid" using len xs by simp
    have ks: "astype_int (rank_dense_descending ?ns)
                = Inr (map (\<lambda>a. int (1 + card {c \<in> set xs. a < c})) xs)"
      unfolding ranks_astype_int using xs by blast
    have "calculate_overall_priority w grid =
            Inr (map (\<lambda>i. norm_row.extend (grid ! i)
                             \<lparr>overall_priority = map (weighted_sum w) grid ! i,
                              priority_normalized = ?ns ! i,
                              priority_class = map classify ?ns ! i,
                              priority_rank = map (\<lambda>a. int (1 + card {c \<in> set xs. a < c})) xs ! i\<rparr>)
                  [0..<length grid])"
      using ks by (simp add: calculate_overall_priority_def Let_def)
    also have "\<dots> = Inr res"
      unfolding res xs using lx by (simp only: sum.inject) (intro map_cong, simp_all)
    finally show "calculate_overall_priority w grid = Inr res" .
  qed
qed

lemma numeric_mem: "Fin x \<in> set vs \<longleftrightarrow> x \<in> set (numeric vs)"
  by (induction vs rule: numeric.induct) auto

lemma normalize_score_numbers: "\<exists>ys. normalize_score (map Fin xs) f = map Fin ys"
proof (cases "xs = []")
  case True
  then have "normalize_score (map Fin xs) f = map Fin []"
    by (simp add: normalize_score_empty)
  then show ?thesis by (rule exI)
next
  case False
  show ?thesis
  proof (cases "Min (set xs) = Max (set xs)")
    case True
    with False have "normalize_score (map Fin xs) f = replicate (length (map Fin xs)) (Fin 5)"
      by (intro normalize_score_flat) (simp_all add: numeric_Fin)
    then have "normalize_score (map Fin xs) f = map Fin (replicate (length xs) 5)"
      by simp
    then show ?thesis by (rule exI)
  next
    case neq: False
    with False have "normalize_score (map Fin xs) f =
        map Fin (map (linear_map (Min (set xs)) (Max (set xs)) f) xs)"
      by (simp add: normalize_score_linear comp_def)
    then show ?thesis by (rule exI)
  qed
qed

lemma weighted_sum_numeric: "numeric_row r \<Longrightarrow> \<exists>x. weighted_sum w r = Fin x"
  by (cases "mortality_score_norm r"; cases "community_score_norm r";
      cases "egress_score_norm r"; cases "population_score_norm r";
      cases "utility_score_norm r")
    (simp_all add: numeric_row_def weighted_sum_def)

lemma numbers_list: "list_all (\<lambda>v. \<not> isnan v) vs \<Longrightarrow> \<exists>xs. vs = map Fin xs"
proof (induction vs)
  case Nil
  then show ?case by simp
next
  case (Cons v vs)
  then obtain x xs where "v = Fin x" "vs = map Fin xs" by (cases v) auto
  then have "v # vs = map Fin (x # xs)" by simp
  then show ?case by (rule exI)
qed

text \<open>On rows of numbers the aggregator returns a table, whatever the weights.\<close>

lemma aggregator_total:
  assumes "list_all numeric_row grid"
  shows "\<exists>res. calculate_overall_priority w grid = Inr res \<and> length res = length grid"
proof -
  have "\<not> isnan (weighted_sum w r)" if "numeric_row r" for r
    using weighted_sum_numeric [OF that, of w] by auto
  with assms have "list_all (\<lambda>v. \<not> isnan v) (map (weighted_sum w) grid)"
    by (simp add: list_all_iff)
  then obtain xs where "map (weighted_sum w) grid = map Fin xs"
    using numbers_list by blast
  then obtain ys where "normalize_score (map (weighted_sum w) grid) False = map Fin ys"
    using normalize_score_numbers [of xs False] by auto
  then have "\<exists>res. calculate_overall_priority w grid = Inr res"
    unfolding calculate_overall_priority_Inr by blast
  then obtain res where res: "calculate_overall_priority w grid = Inr res" ..
  then have "length res = length grid"
    unfolding calculate_overall_priority_Inr by auto
  with res show ?thesis by blast
qed

lemma classify_bins:
  "classify (Fin p) =
     (if p < 0 \<or> 10 < p then None
      else Some (if p \<le> 2 then Very_Low else if p \<le> 4 then Low else if p \<le> 6 then Medium
                 else if p \<le> 8 then High else Very_High))"
  by (simp add: classify_def cut_def)

lemma normalize_score_range:
  assumes "Fin p \<in> set (normalize_score vs f)"
  shows "0 \<le> p \<and> p \<le> 10"
proof (cases "numeric vs = []")
  case True
  then have "normalize_score vs f = replicate (length vs) (Fin 0)"
    by (simp add: normalize_score_all_nan numeric_all_nan)
  with assms show ?thesis by simp
next
  case False
  let ?lo = "Min (set (numeric vs))" and ?hi = "Max (set (numeric vs))"
  show ?thesis
  proof (cases "?lo = ?hi")
    case True
    with False have "normalize_score vs f = replicate (length vs) (Fin 5)"
      by (rule normalize_score_flat)
    with assms show ?thesis by simp
  next
    case neq: False
    have "?lo \<le> ?hi" using False by (simp add: Min_le_iff)
    with neq have lt: "?lo < ?hi" by simp
    have nn: "\<not> list_all isnan vs" "vs \<noteq> []" using False by (auto simp: numeric_all_nan)
    have "normalize_score vs f =
        map (\<lambda>v. case v of NaN \<Rightarrow> NaN | Fin x \<Rightarrow> Fin (linear_map ?lo ?hi f x)) vs"
      using nn neq False
      by (auto simp: normalize_score_def Let_def nanmin_Min nanmax_Max linear_map_def
          split: pyfloat.splits)
    with assms obtain v where v: "v \<in> set vs"
      "Fin p = (case v of NaN \<Rightarrow> NaN | Fin x \<Rightarrow> Fin (linear_map ?lo ?hi f x))"
      by auto
    from v(2) obtain x where x: "v = Fin x" "p = linear_map ?lo ?hi f x"
      by (cases v) simp_all
    with v(1) have "x \<in> set (numeric vs)" by (simp add: numeric_mem)
    then have "?lo \<le> x" "x \<le> ?hi" by simp_all
    with lt show ?thesis unfolding x(2) by (intro linear_map_bounds)
  qed
qed

text \<open>The columns of the table, for the normalized priorities \<open>xs\<close>.\<close>

lemma aggregator_columns:
  assumes "calculate_overall_priority w grid = Inr res"
  shows "\<exists>xs. normalize_score (map (weighted_sum w) grid) False = map Fin xs \<and>
              map priority_normalized res = map Fin xs \<and>
              map priority_class res = map (\<lambda>a. classify (Fin a)) xs \<and>
              map priority_rank res = map (\<lambda>a. int (1 + card {c \<in> set xs. a < c})) xs"
proof -
  from assms obtain xs where xs: "normalize_score (map (weighted_sum w) grid) False = map Fin xs"
    and res: "res = map (\<lambda>i. norm_row.extend (grid ! i)
                             \<lparr>overall_priority = weighted_sum w (grid ! i),
                              priority_normalized = Fin (xs ! i),
                              priority_class = classify (Fin (xs ! i)),
                              priority_rank = int (1 + card {c \<in> set xs. xs ! i < c})\<rparr>)
                  [0..<length grid]"
    unfolding calculate_overall_priority_Inr by blast
  have "length (normalize_score (map (weighted_sum w) grid) False) = length grid"
    by (simp add: normalize_score_length)
  then have lx: "length xs = length grid" by (simp add: xs)
  have "map priority_normalized res = map Fin xs"
    unfolding res using lx by (intro nth_equalityI) (simp_all add: norm_row.defs)
  moreover have "map priority_class res = map (\<lambda>a. classify (Fin a)) xs"
    unfolding res using lx by (intro nth_equalityI) (simp_all add: norm_row.defs)
  moreover have "map priority_rank res = map (\<lambda>a. int (1 + card {c \<in> set xs. a < c})) xs"
    unfolding res using lx by (intro nth_equalityI) (simp_all add: norm_row.defs)
  ultimately show ?thesis using xs by blast
qed

lemma rank_image_contiguous:
  "(\<lambda>a::real. int (1 + card {c \<in> set xs. a < c})) ` set xs = {1..int (card (set xs))}"
proof -
  have "(\<lambda>a. int (1 + card {c \<in> set xs. a < c})) ` set xs
          = (\<lambda>n. int (Suc n)) ` ((\<lambda>a. card {c \<in> set xs. a < c}) ` set xs)"
    by (simp add: image_image)
  also have "\<dots> = (\<lambda>n. int (Suc n)) ` {..<card (set xs)}"
    by (simp only: above_image [OF finite_set])
  also have "\<dots> = {1..int (card (set xs))}"
  proof (intro set_eqI iffI)
    fix k assume "k \<in> (\<lambda>n. int (Suc n)) ` {..<card (set xs)}"
    then show "k \<in> {1..int (card (set xs))}" by auto
  next
    fix k assume k: "k \<in> {1..int (card (set xs))}"
    then have "nat k - 1 < card (set xs)" "k = int (Suc (nat k - 1))" by auto
    then show "k \<in> (\<lambda>n. int (Suc n)) ` {..<card (set xs)}" by blast
  qed
  finally show ?thesis .
qed

lemma column_nth:
  assumes "map f res = map g xs" and "i < length res"
  shows "f (res ! i) = g (xs ! i)"
proof -
  have "length xs = length res" using assms(1) by (metis length_map)
  with assms(2) have "map f res ! i = f (res ! i)" "map g xs ! i = g (xs ! i)"
    by simp_all
  with assms(1) show ?thesis by simp
qed

text \<open>
  Claim C9. In every table that the aggregator returns, two cells with equal final
  priority have the same rank, a cell with a strictly higher final priority has a strictly
  smaller rank, and the ranks in use are exactly 1 up to the number of distinct final
  priorities.
\<close>

theorem dense_ranks:
  assumes "calculate_overall_priority w grid = Inr res"
  shows "(\<forall>i < length res. \<forall>j < length res.
            (priority_normalized (res ! i) = priority_normalized (res ! j) \<longrightarrow>
               priority_rank (res ! i) = priority_rank (res ! j)) \<and>
            (flt (priority_normalized (res ! j)) (priority_normalized (res ! i)) \<longrightarrow>
               priority_rank (res ! i) < priority_rank (res ! j))) \<and>
         priority_rank ` set res = {1..int (card (priority_normalized ` set res))}"
proof -
  from aggregator_columns [OF assms] obtain xs
    where pn: "map priority_normalized res = map Fin xs"
      and pr: "map priority_rank res = map (\<lambda>a. int (1 + card {c \<in> set xs. a < c})) xs"
    by blast
  from pn have lx: "length xs = length res" by (metis length_map)
  have n: "priority_normalized (res ! i) = Fin (xs ! i)" if "i < length res" for i
    using pn that by (rule column_nth)
  have r: "priority_rank (res ! i) = int (1 + card {c \<in> set xs. xs ! i < c})"
    if "i < length res" for i
    using pr that by (rule column_nth)
  have eq: "priority_rank (res ! i) = priority_rank (res ! j)"
    if "i < length res" "j < length res"
      "priority_normalized (res ! i) = priority_normalized (res ! j)" for i j
  proof -
    from that have "xs ! i = xs ! j" by (simp add: n)
    then show ?thesis by (simp only: r [OF that(1)] r [OF that(2)])
  qed
  have less: "priority_rank (res ! i) < priority_rank (res ! j)"
    if "i < length res" "j < length res"
      "flt (priority_normalized (res ! j)) (priority_normalized (res ! i))" for i j
  proof -
    from that have "xs ! j < xs ! i" by (simp add: n)
    moreover have "xs ! i \<in> set xs" using that(1) lx by simp
    moreover have "finite (set xs)" by simp
    ultimately have "card {c \<in> set xs. xs ! i < c} < card {c \<in> set xs. xs ! j < c}"
      using above_strict [of "set xs" "xs ! i" "xs ! j"] by blast
    then show ?thesis by (simp only: r [OF that(1)] r [OF that(2)])
  qed
  have "priority_rank ` set res = set (map priority_rank res)" by simp
  also have "\<dots> = (\<lambda>a. int (1 + card {c \<in> set xs. a < c})) ` set xs"
    by (simp only: pr set_map)
  also have "\<dots> = {1..int (card (set xs))}" by (rule rank_image_contiguous)
  finally have ranks: "priority_rank ` set res = {1..int (card (set xs))}" .
  have "priority_normalized ` set res = set (map priority_normalized res)" by simp
  also have "\<dots> = Fin ` set xs" by (simp only: pn set_map)
  finally have "priority_normalized ` set res = Fin ` set xs" .
  moreover have "card (Fin ` set xs) = card (set xs)"
    by (rule card_image) (simp add: inj_on_def)
  ultimately have "card (priority_normalized ` set res) = card (set xs)" by simp
  with ranks have "priority_rank ` set res = {1..int (card (priority_normalized ` set res))}"
    by simp
  with eq less show ?thesis by blast
qed

subsection \<open>A whole run\<close>

lemmas example_geometry = strips_def lower_def lower_char_def Let_def

lemma example_mortality_scores:
  "calculate_tree_mortality_score strips [Strip 0 10, Strip 10 20, Strip 100 110]
     mortality_example = Inr ([Fin 4, Fin 4, Fin 0], [Fin 10, Fin 10, Fin 0])"
proof -
  have "for_each_cell (mortality_cell_score strips mortality_example)
          [Strip 0 10, Strip 10 20, Strip 100 110] = Inr [Fin 4, Fin 4, Fin 0]"
    by (simp add: mortality_cell_score_def mortality_example_def py_truediv_def
        example_geometry)
  moreover have "normalize_score [Fin 4, Fin 4, Fin 0] False = [Fin 10, Fin 10, Fin 0]"
    by (simp add: normalize_score_def nanmin_def nanmax_def)
  ultimately show ?thesis by (simp add: calculate_tree_mortality_score_def)
qed

lemma example_community_scores:
  "calculate_community_score strips [Strip 0 10, Strip 10 20, Strip 100 110]
     community_example = Inr ([Fin 5, Fin 6, Fin 7], [Fin 0, Fin 5, Fin 10])"
proof -
  have "map (community_cell_score strips community_example)
          [Strip 0 10, Strip 10 20, Strip 100 110] = [Fin 5, Fin 6, Fin 7]"
    by (simp add: community_cell_score_def community_feature_score_def community_example_def
        pymax_def example_geometry)
  moreover have "normalize_score [Fin 5, Fin 6, Fin 7] False = [Fin 0, Fin 5, Fin 10]"
    by (simp add: normalize_score_def nanmin_def nanmax_def)
  ultimately show ?thesis by (simp add: calculate_community_score_def)
qed

lemma example_egress_scores:
  "calculate_egress_score strips [Strip 0 10, Strip 10 20, Strip 100 110]
     egress_example = Inr ([Fin 5, Fin 7, Fin 8], [Fin 0, Fin (20 / 3), Fin 10])"
proof -
  have "map (egress_cell_score strips egress_example)
          [Strip 0 10, Strip 10 20, Strip 100 110] = [Fin 5, Fin 7, Fin 8]"
    by (simp add: egress_cell_score_def egress_route_score_def egress_example_def
        pymax_def example_geometry)
  moreover have "normalize_score [Fin 5, Fin 7, Fin 8] False = [Fin 0, Fin (20 / 3), Fin 10]"
    by (simp add: normalize_score_def nanmin_def nanmax_def)
  ultimately show ?thesis by (simp add: calculate_egress_score_def)
qed

lemma example_population_scores:
  "calculate_population_score strips [Strip 0 10, Strip 10 20, Strip 100 110]
     population_example = Inr ([Fin 8, Fin 4, Fin 0], [Fin 10, Fin 5, Fin 0])"
proof -
  have "for_each_cell (population_cell_score strips population_example)
          [Strip 0 10, Strip 10 20, Strip 100 110] = Inr [Fin 8, Fin 4, Fin 0]"
    by (simp add: population_cell_score_def population_example_def py_truediv_def
        example_geometry)
  moreover have "normalize_score [Fin 8, Fin 4, Fin 0] False = [Fin 10, Fin 5, Fin 0]"
    by (simp add: normalize_score_def nanmin_def nanmax_def)
  ultimately show ?thesis by (simp add: calculate_population_score_def)
qed

lemma example_utility_scores:
  "calculate_utility_score strips [Strip 0 10, Strip 10 20, Strip 100 110]
     (utility_layers [] [] [\<lparr>geometry = Strip 25 40, columns = []\<rparr>] []
        [\<lparr>geometry = Strip 75 76, columns = []\<rparr>])
     = Inr ([Fin 3, Fin 5, Fin (12 / 7)], [Fin (90 / 23), Fin 10, Fin 0])"
proof -
  have "map (utility_cell_score strips
               (utility_layers [] [] [\<lparr>geometry = Strip 25 40, columns = []\<rparr>] []
                  [\<lparr>geometry = Strip 75 76, columns = []\<rparr>]))
          [Strip 0 10, Strip 10 20, Strip 100 110] = [Fin 3, Fin 5, Fin (12 / 7)]"
    by (simp add: utility_cell_score_def utility_feature_score_def utility_layers_def
        pymax_def example_geometry)
  moreover have "normalize_score [Fin 3, Fin 5, Fin (12 / 7)] False
      = [Fin (90 / 23), Fin 10, Fin 0]"
    by (simp add: normalize_score_def nanmin_def nanmax_def)
  ultimately show ?thesis by (simp add: calculate_utility_score_def)
qed

lemma example_run:
  "run_analysis strips example_layers w =
     calculate_overall_priority w
       [\<lparr>mortality_score_norm = Fin 10, community_score_norm = Fin 0, egress_score_norm = Fin 0,
         population_score_norm = Fin 10, utility_score_norm = Fin (90 / 23)\<rparr>,
        \<lparr>mortality_score_norm = Fin 10, community_score_norm = Fin 5,
         egress_score_norm = Fin (20 / 3), population_score_norm = Fin 5,
         utility_score_norm = Fin 10\<rparr>,
        \<lparr>mortality_score_norm = Fin 0, community_score_norm = Fin 10, egress_score_norm = Fin 10,
         population_score_norm = Fin 0, utility_score_norm = Fin 0\<rparr>]"
proof -
  have "[0..<length [Strip 0 10, Strip 10 20, Strip 100 110]] = [0, 1, 2]"
    by (simp add: upt_rec)
  then show ?thesis
    by (simp add: run_analysis_def example_layers_def example_mortality_scores
        example_community_scores example_egress_scores example_population_scores
        example_utility_scores)
qed

text \<open>The run on the boundary scenario, up to the aggregator.\<close>

lemma boundary_run:
  "run_analysis strips boundary_layers w = calculate_overall_priority w aggregator_example"
proof -
  let ?grid = "[Strip 0 10, Strip 20 30, Strip 40 50, Strip 60 70]"
  have flat: "normalize_score [Fin 0, Fin 0, Fin 0, Fin 0] False = [Fin 5, Fin 5, Fin 5, Fin 5]"
    by (simp add: normalize_score_def nanmin_def nanmax_def)
  have "for_each_cell (mortality_cell_score strips (tree_mortality boundary_layers)) ?grid
          = Inr [Fin 0, Fin 1, Fin 5, Fin 1]"
    by (simp add: mortality_cell_score_def boundary_layers_def py_truediv_def
        example_geometry)
  moreover have "normalize_score [Fin 0, Fin 1, Fin 5, Fin 1] False
      = [Fin 0, Fin 2, Fin 10, Fin 2]"
    by (simp add: normalize_score_def nanmin_def nanmax_def)
  ultimately have m: "calculate_tree_mortality_score strips ?grid
      (tree_mortality boundary_layers)
      = Inr ([Fin 0, Fin 1, Fin 5, Fin 1], [Fin 0, Fin 2, Fin 10, Fin 2])"
    by (simp add: calculate_tree_mortality_score_def)
  have c: "calculate_community_score strips ?grid []
      = Inr ([Fin 0, Fin 0, Fin 0, Fin 0], [Fin 5, Fin 5, Fin 5, Fin 5])"
    by (simp add: calculate_community_score_def community_cell_score_def flat)
  have e: "calculate_egress_score strips ?grid []
      = Inr ([Fin 0, Fin 0, Fin 0, Fin 0], [Fin 5, Fin 5, Fin 5, Fin 5])"
    by (simp add: calculate_egress_score_def egress_cell_score_def flat)
  have p: "calculate_population_score strips ?grid []
      = Inr ([Fin 0, Fin 0, Fin 0, Fin 0], [Fin 5, Fin 5, Fin 5, Fin 5])"
    by (simp add: calculate_population_score_def population_cell_score_def flat)
  have u: "calculate_utility_score strips ?grid (utility_layers [] [] [] [] [])
      = Inr ([Fin 0, Fin 0, Fin 0, Fin 0], [Fin 5, Fin 5, Fin 5, Fin 5])"
    by (simp add: calculate_utility_score_def utility_cell_score_def utility_layers_def flat)
  have g: "cutting_grid boundary_layers = ?grid"
    "community_features boundary_layers = []" "egress_routes boundary_layers = []"
    "populated_areas boundary_layers = []" "transmission boundary_layers = []"
    "sub_transmission boundary_layers = []" "dist_circuits boundary_layers = []"
    "substations boundary_layers = []" "pole_top_subs boundary_layers = []"
    by (simp_all add: boundary_layers_def)
  have "[0..<length ?grid] = [0, 1, 2, 3]"
    by (simp add: upt_rec)
  then show ?thesis
    by (simp add: run_analysis_def g m c e p u aggregator_example_def mortality_row_def)
qed

subsection \<open>The aggregator on the example rows\<close>

lemma above_count: "card {c \<in> set xs. a < c} = length (remdups (filter (\<lambda>c. a < c) xs))"
proof -
  have "{c \<in> set xs. a < c} = set (filter (\<lambda>c. a < c) xs)" by auto
  then show ?thesis by (simp only: card_set)
qed

lemma weighted_sum_mortality_row:
  "weighted_sum w (mortality_row m) =
     Fin (m * tree_mortality_weight w + 5 * community_features_weight w +
          5 * egress_routes_weight w + 5 * populated_areas_weight w +
          5 * electric_utilities_weight w)"
  by (simp add: weighted_sum_def mortality_row_def)

lemma aggregator_example_numeric: "list_all numeric_row aggregator_example"
  by (simp add: aggregator_example_def mortality_row_def numeric_row_def)

lemma aggregator_example_normalized:
  "normalize_score (map (weighted_sum init_weights) aggregator_example) False
     = map Fin [0, 2, 10, 2]"
  by (simp add: aggregator_example_def weighted_sum_mortality_row init_weights_def
      normalize_score_def nanmin_def nanmax_def)

lemma aggregator_example_columns:
  "\<exists>res. calculate_overall_priority init_weights aggregator_example = Inr res \<and>
         map priority_normalized res = [Fin 0, Fin 2, Fin 10, Fin 2] \<and>
         map priority_class res = [Some Very_Low, Some Very_Low, Some Very_High, Some Very_Low] \<and>
         map priority_rank res = [3, 2, 1, 2]"
proof -
  obtain res where res: "calculate_overall_priority init_weights aggregator_example = Inr res"
    using aggregator_total [OF aggregator_example_numeric] by blast
  from aggregator_columns [OF res] obtain xs
    where xs: "map Fin [0, 2, 10, 2] = map Fin xs"
      and cols: "map priority_normalized res = map Fin xs"
        "map priority_class res = map (\<lambda>a. classify (Fin a)) xs"
        "map priority_rank res = map (\<lambda>a. int (1 + card {c \<in> set xs. a < c})) xs"
    unfolding aggregator_example_normalized by blast
  from xs have "xs = [0, 2, 10, 2]"
    by (simp only: inj_map_eq_map [OF inj_onI [of UNIV Fin], simplified])
  with cols(1,2) cols(3) [unfolded above_count]
  have "map priority_normalized res = [Fin 0, Fin 2, Fin 10, Fin 2]"
    "map priority_class res = [Some Very_Low, Some Very_Low, Some Very_High, Some Very_Low]"
    "map priority_rank res = [3, 2, 1, 2]"
    by (simp_all add: classify_bins)
  with res have "calculate_overall_priority init_weights aggregator_example = Inr res \<and>
         map priority_normalized res = [Fin 0, Fin 2, Fin 10, Fin 2] \<and>
         map priority_class res = [Some Very_Low, Some Very_Low, Some Very_High, Some Very_Low] \<and>
         map priority_rank res = [3, 2, 1, 2]"
    by (intro conjI)
  then show ?thesis by (rule exI)
qed

theorem dense_ranks_witness:
  "\<exists>res. calculate_overall_priority init_weights aggregator_example = Inr res \<and>
         map priority_normalized res = [Fin 0, Fin 2, Fin 10, Fin 2] \<and>
         map priority_rank res = [3, 2, 1, 2] \<and>
         priority_rank ` set res = {1..3}"
proof -
  from aggregator_example_columns obtain res
    where res: "calculate_overall_priority init_weights aggregator_example = Inr res"
      and pn: "map priority_normalized res = [Fin 0, Fin 2, Fin 10, Fin 2]"
      and pr: "map priority_rank res = [3, 2, 1, 2]"
    by (elim exE conjE)
  have "priority_normalized ` set res = set (map priority_normalized res)" by simp
  also have "\<dots> = {Fin 0, Fin 2, Fin 10}" unfolding pn by auto
  finally have "card (priority_normalized ` set res) = 3" by simp
  with dense_ranks [OF res] have "priority_rank ` set res = {1..3}" by simp
  with res pn pr
  have "calculate_overall_priority init_weights aggregator_example = Inr res \<and>
         map priority_normalized res = [Fin 0, Fin 2, Fin 10, Fin 2] \<and>
         map priority_rank res = [3, 2, 1, 2] \<and>
         priority_rank ` set res = {1..3}"
    by (intro conjI)
  then show ?thesis by (rule exI)
qed

text \<open>
  Claim C1, as stated: a cell whose final normalized priority is exactly 2.0 is classified
  "Low". It fails on the run of the boundary scenario: the second and the fourth cell have
  final priority 2.0 and class "Very Low".
\<close>

theorem score_two_is_very_low:
  "map_sum id (map priority_normalized) (run_analysis strips boundary_layers init_weights)
     = Inr [Fin 0, Fin 2, Fin 10, Fin 2] \<and>
   map_sum id (map priority_class) (run_analysis strips boundary_layers init_weights)
     = Inr [Some Very_Low, Some Very_Low, Some Very_High, Some Very_Low] \<and>
   classify (Fin 2) \<noteq> Some Low"
proof -
  from aggregator_example_columns obtain res
    where res: "calculate_overall_priority init_weights aggregator_example = Inr res"
      and pn: "map priority_normalized res = [Fin 0, Fin 2, Fin 10, Fin 2]"
      and pc: "map priority_class res
                 = [Some Very_Low, Some Very_Low, Some Very_High, Some Very_Low]"
    by (elim exE conjE)
  have "classify (Fin 2) \<noteq> Some Low" by (simp add: classify_bins)
  then show ?thesis by (simp add: boundary_run res pn pc)
qed

text \<open>
  Claim C1, amended. In every table that the aggregator returns, the final normalized
  priority \<open>p\<close> of a cell lies between 0 and 10 and its class follows the bins closed on the
  right, the lowest one also closed at 0: "Very Low" on [0, 2], "Low" on (2, 4], "Medium" on
  (4, 6], "High" on (6, 8], "Very High" on (8, 10]. A score of exactly 2.0 is "Very Low".
\<close>

theorem priority_class_bins:
  assumes "calculate_overall_priority w grid = Inr res"
  shows "\<forall>r \<in> set res. \<exists>p. priority_normalized r = Fin p \<and> 0 \<le> p \<and> p \<le> 10 \<and>
           priority_class r =
             Some (if p \<le> 2 then Very_Low else if p \<le> 4 then Low
                   else if p \<le> 6 then Medium else if p \<le> 8 then High else Very_High)"
proof
  fix r assume "r \<in> set res"
  then obtain i where i: "i < length res" "r = res ! i" by (auto simp: in_set_conv_nth)
  from aggregator_columns [OF assms] obtain xs
    where ns: "normalize_score (map (weighted_sum w) grid) False = map Fin xs"
      and pn: "map priority_normalized res = map Fin xs"
      and pc: "map priority_class res = map (\<lambda>a. classify (Fin a)) xs"
    by blast
  from pn have lx: "length xs = length res" by (metis length_map)
  have n: "priority_normalized r = Fin (xs ! i)"
    unfolding i(2) using pn i(1) by (rule column_nth)
  have c: "priority_class r = classify (Fin (xs ! i))"
    unfolding i(2) using pc i(1) by (rule column_nth)
  have "Fin (xs ! i) \<in> set (normalize_score (map (weighted_sum w) grid) False)"
    unfolding ns using i(1) lx by simp
  then have range: "0 \<le> xs ! i \<and> xs ! i \<le> 10" by (rule normalize_score_range)
  then have "classify (Fin (xs ! i)) =
      Some (if xs ! i \<le> 2 then Very_Low else if xs ! i \<le> 4 then Low
            else if xs ! i \<le> 6 then Medium else if xs ! i \<le> 8 then High else Very_High)"
    by (simp add: classify_bins)
  with n c range show "\<exists>p. priority_normalized r = Fin p \<and> 0 \<le> p \<and> p \<le> 10 \<and>
           priority_class r =
             Some (if p \<le> 2 then Very_Low else if p \<le> 4 then Low
                   else if p \<le> 6 then Medium else if p \<le> 8 then High else Very_High)"
    by simp
qed

theorem priority_class_bins_witness:
  "\<exists>res. calculate_overall_priority init_weights aggregator_example = Inr res \<and>
         map priority_normalized res = [Fin 0, Fin 2, Fin 10, Fin 2] \<and>
         map priority_class res
           = [Some Very_Low, Some Very_Low, Some Very_High, Some Very_Low] \<and>
         None \<notin> priority_class ` set res"
proof -
  from aggregator_example_columns obtain res
    where res: "calculate_overall_priority init_weights aggregator_example = Inr res"
      and pn: "map priority_normalized res = [Fin 0, Fin 2, Fin 10, Fin 2]"
      and pc: "map priority_class res
                 = [Some Very_Low, Some Very_Low, Some Very_High, Some Very_Low]"
    by (elim exE conjE)
  have "None \<notin> priority_class ` set res"
    using priority_class_bins [OF res] by force
  with res pn pc
  have "calculate_overall_priority init_weights aggregator_example = Inr res \<and>
         map priority_normalized res = [Fin 0, Fin 2, Fin 10, Fin 2] \<and>
         map priority_class res
           = [Some Very_Low, Some Very_Low, Some Very_High, Some Very_Low] \<and>
         None \<notin> priority_class ` set res"
    by (intro conjI)
  then show ?thesis by (rule exI)
qed

text \<open>
  Claim C2, as stated: weights that do not sum to 1.0 are rejected before scoring begins.
  It fails for the weights 0.25, 0.20, 0.20, 0.20, 0.10, of sum 0.95: the whole run on the
  example layers ends without an error.
\<close>

theorem weights_of_sum_095_accepted:
  "tree_mortality_weight skewed_weights + community_features_weight skewed_weights +
     egress_routes_weight skewed_weights + populated_areas_weight skewed_weights +
     electric_utilities_weight skewed_weights = 0.95 \<and>
   \<not> isl (run_analysis strips example_layers skewed_weights)"
proof -
  have "list_all numeric_row
     [\<lparr>mortality_score_norm = Fin 10, community_score_norm = Fin 0, egress_score_norm = Fin 0,
       population_score_norm = Fin 10, utility_score_norm = Fin (90 / 23)\<rparr>,
      \<lparr>mortality_score_norm = Fin 10, community_score_norm = Fin 5,
       egress_score_norm = Fin (20 / 3), population_score_norm = Fin 5,
       utility_score_norm = Fin 10\<rparr>,
      \<lparr>mortality_score_norm = Fin 0, community_score_norm = Fin 10, egress_score_norm = Fin 10,
       population_score_norm = Fin 0, utility_score_norm = Fin 0\<rparr>]"
    by (simp add: numeric_row_def)
  from aggregator_total [OF this, of skewed_weights]
  have "\<exists>res. run_analysis strips example_layers skewed_weights = Inr res"
    unfolding example_run by blast
  then have "\<not> isl (run_analysis strips example_layers skewed_weights)" by auto
  then show ?thesis by (simp add: skewed_weights_def)
qed

text \<open>The column of overall priorities holds the weighted sums.\<close>

lemma aggregator_overall_column:
  assumes "calculate_overall_priority w grid = Inr res"
  shows "map overall_priority res = map (weighted_sum w) grid"
proof -
  from assms obtain xs
    where res: "res = map (\<lambda>i. norm_row.extend (grid ! i)
                             \<lparr>overall_priority = weighted_sum w (grid ! i),
                              priority_normalized = Fin (xs ! i),
                              priority_class = classify (Fin (xs ! i)),
                              priority_rank = int (1 + card {c \<in> set xs. xs ! i < c})\<rparr>)
                  [0..<length grid]"
    unfolding calculate_overall_priority_Inr by blast
  show ?thesis
    unfolding res by (intro nth_equalityI) (simp_all add: norm_row.defs)
qed

lemma scaled_row_numeric: "scaled_row r \<Longrightarrow> numeric_row r"
  by (cases "mortality_score_norm r"; cases "community_score_norm r";
      cases "egress_score_norm r"; cases "population_score_norm r";
      cases "utility_score_norm r")
    (simp_all add: scaled_row_def numeric_row_def)

text \<open>
  Claim C2, amended. The engine does not validate the weights and raises no configuration
  error. The weights that it sets, 0.25, 0.20, 0.20, 0.20, 0.15, are positive and sum to
  1.0, and they are accepted; so is every other set of weights of ordinary size (each
  between -1 and 1), whatever its sum, 0.95 and 1.05 included, and whatever its signs: on
  every non-empty grid of normalized scores the aggregator computes the weighted sum with
  the weights as they are and returns the table, one row for each cell.
\<close>

theorem weights_not_validated:
  "tree_mortality_weight init_weights + community_features_weight init_weights +
     egress_routes_weight init_weights + populated_areas_weight init_weights +
     electric_utilities_weight init_weights = 1 \<and>
   0 < tree_mortality_weight init_weights \<and> 0 < community_features_weight init_weights \<and>
   0 < egress_routes_weight init_weights \<and> 0 < populated_areas_weight init_weights \<and>
   0 < electric_utilities_weight init_weights \<and>
   modest_weights init_weights \<and>
   (modest_weights w \<and> grid \<noteq> [] \<and> list_all scaled_row grid \<longrightarrow>
      (\<exists>res. calculate_overall_priority w grid = Inr res \<and> length res = length grid \<and>
             map overall_priority res = map (weighted_sum w) grid))"
proof -
  have "\<exists>res. calculate_overall_priority w grid = Inr res \<and> length res = length grid \<and>
             map overall_priority res = map (weighted_sum w) grid"
    if "list_all scaled_row grid"
  proof -
    from that have "list_all numeric_row grid"
      using scaled_row_numeric by (auto simp: list_all_iff)
    then obtain res where res: "calculate_overall_priority w grid = Inr res"
      "length res = length grid"
      using aggregator_total [of grid w] by blast
    from res(1) have "map overall_priority res = map (weighted_sum w) grid"
      by (rule aggregator_overall_column)
    with res have "calculate_overall_priority w grid = Inr res \<and> length res = length grid \<and>
             map overall_priority res = map (weighted_sum w) grid"
      by (intro conjI)
    then show ?thesis by (rule exI)
  qed
  then show ?thesis by (simp add: init_weights_def modest_weights_def)
qed

theorem weights_not_validated_witness:
  "modest_weights skewed_weights \<and> modest_weights inflated_weights \<and>
   modest_weights signed_weights \<and>
   aggregator_example \<noteq> [] \<and> list_all scaled_row aggregator_example \<and>
   (\<exists>res. calculate_overall_priority skewed_weights aggregator_example = Inr res \<and>
          length res = 4 \<and>
          map overall_priority res = [Fin 3.5, Fin 4, Fin 6, Fin 4]) \<and>
   (\<exists>res. calculate_overall_priority inflated_weights aggregator_example = Inr res \<and>
          length res = 4 \<and>
          map overall_priority res = [Fin 4, Fin 4.5, Fin 6.5, Fin 4.5]) \<and>
   (\<exists>res. calculate_overall_priority signed_weights aggregator_example = Inr res \<and>
          length res = 4 \<and>
          map overall_priority res = [Fin 2.5, Fin 3.5, Fin 7.5, Fin 3.5])"
proof -
  have m: "modest_weights skewed_weights" "modest_weights inflated_weights"
    "modest_weights signed_weights"
    by (simp_all add: modest_weights_def skewed_weights_def inflated_weights_def
        signed_weights_def)
  have g: "aggregator_example \<noteq> []" "list_all scaled_row aggregator_example"
    "length aggregator_example = 4"
    by (simp_all add: aggregator_example_def mortality_row_def scaled_row_def)
  have s: "map (weighted_sum skewed_weights) aggregator_example
             = [Fin 3.5, Fin 4, Fin 6, Fin 4]"
    "map (weighted_sum inflated_weights) aggregator_example
             = [Fin 4, Fin 4.5, Fin 6.5, Fin 4.5]"
    "map (weighted_sum signed_weights) aggregator_example
             = [Fin 2.5, Fin 3.5, Fin 7.5, Fin 3.5]"
    by (simp_all add: aggregator_example_def weighted_sum_mortality_row skewed_weights_def
        inflated_weights_def signed_weights_def)
  show ?thesis
    using weights_not_validated [of skewed_weights aggregator_example]
      weights_not_validated [of inflated_weights aggregator_example]
      weights_not_validated [of signed_weights aggregator_example]
    by (simp add: m g s)
qed

end
